theory Spec2Isabelle
  imports Complex_Main "HOL-Library.Word" "HOL-Library.Sublist"
begin

unbundle bit_operations_syntax

section \<open>The I2C master of pyftdi (src/pyftdi/i2c.py)\<close>

text \<open>
  The development embeds \<^verbatim>\<open>I2cPort\<close> and \<^verbatim>\<open>I2cController\<close>. Python integers are
  \<open>int\<close>; the elements of an \<^verbatim>\<open>Array('B')\<close> and of a \<^verbatim>\<open>bytes\<close> object are \<open>8 word\<close>.
  Exceptions are values of the type \<open>error\<close>; every method returns its outcome together
  with the controller it leaves behind, so that what reached the FTDI device before a
  raise stays visible. Calls to the logger are left out, the one of \<^verbatim>\<open>_do_write\<close> apart:
  its argument \<^verbatim>\<open>hexlify(out)\<close> is evaluated before the call and can raise.
\<close>

subsection \<open>Errors, bytes, the FTDI device\<close>

type_synonym byte = "8 word"

datatype error =
    I2cIOError string
  | I2cNackError string
  | FtdiError
  | TypeError
  | AttributeError
  | StructError

text \<open>
  The opcodes \<^verbatim>\<open>Ftdi.SET_BITS_LOW\<close>, ... are class attributes of \<^verbatim>\<open>pyftdi.ftdi.Ftdi\<close>, which
  is not part of the sources at hand; they are a parameter \<open>K\<close> of everything that
  builds a command.
\<close>

record mpsse =
  SET_BITS_LOW :: byte
  SEND_IMMEDIATE :: byte
  READ_BITS_PVE_MSB :: byte
  READ_BYTES_PVE_MSB :: byte
  WRITE_BYTES_NVE_MSB :: byte
  WRITE_BITS_NVE_MSB :: byte

text \<open>
  Modelled from the spec: the Command Engine (\<^verbatim>\<open>pyftdi.ftdi.Ftdi\<close>), whose code is missing.
  The spec gives its contract: \<^verbatim>\<open>sendCommands(bytes)\<close> fails on a transport error,
  \<^verbatim>\<open>receiveBytes(count, retryBudget)\<close> returns bytes or fails. The device is a record of
  the calls made to it so far, in order, and of its behaviour: the outcome of the latest
  call as a function of the whole history of calls. Any deterministic device is of that
  form.
\<close>

datatype call = WriteData "byte list" | ReadData int int

datatype reply = Reply "byte list" | Fault

record ftdi =
  behaviour :: "call list \<Rightarrow> reply"
  calls :: "call list"

definition ftdi_write_data :: "ftdi \<Rightarrow> byte list \<Rightarrow> (error + unit) \<times> ftdi" where
  "ftdi_write_data f cmd =
     (let f' = f\<lparr>calls := calls f @ [WriteData cmd]\<rparr>
      in case behaviour f (calls f') of
           Fault \<Rightarrow> (Inl FtdiError, f')
         | Reply _ \<Rightarrow> (Inr (), f'))"

definition ftdi_read_data_bytes :: "ftdi \<Rightarrow> int \<Rightarrow> int \<Rightarrow> (error + byte list) \<times> ftdi" where
  "ftdi_read_data_bytes f sz attempt =
     (let f' = f\<lparr>calls := calls f @ [ReadData sz attempt]\<rparr>
      in case behaviour f (calls f') of
           Fault \<Rightarrow> (Inl FtdiError, f')
         | Reply bs \<Rightarrow> (Inr bs, f'))"

subsection \<open>I2cPort: the state of a slave handle\<close>

record I2cPort =
  address :: int
  shift :: int
  endian :: char
  format :: char

definition I2cPort_init :: "int \<Rightarrow> I2cPort" where
  "I2cPort_init a = \<lparr>address = a, shift = 0, endian = CHR ''<'', format = CHR ''B''\<rparr>"

text \<open>\<^verbatim>\<open>FORMATS = {scalc(fmt): fmt for fmt in 'BHI'}\<close>, with \<^verbatim>\<open>struct.calcsize\<close> of B, H, I.\<close>

definition scalc :: "char \<Rightarrow> nat" where
  "scalc fmt = (if fmt = CHR ''B'' then 1 else if fmt = CHR ''H'' then 2 else 4)"

definition FORMATS :: "int \<rightharpoonup> char" where
  "FORMATS = map_of (map (\<lambda>fmt. (int (scalc fmt), fmt)) ''BHI'')"

subsection \<open>I2cController: constants and state\<close>

definition LOW :: int where "LOW = 0x00"
definition HIGH :: int where "HIGH = 0xff"
definition BIT0 :: int where "BIT0 = 0x01"
definition IDLE :: int where "IDLE = HIGH"
definition SCL_BIT :: int where "SCL_BIT = 0x01"
definition SDA_O_BIT :: int where "SDA_O_BIT = 0x02"
definition SDA_I_BIT :: int where "SDA_I_BIT = 0x04"
definition PAYLOAD_MAX_LENGTH :: int where "PAYLOAD_MAX_LENGTH = 0x10000"
definition HIGHEST_I2C_ADDRESS :: int where "HIGHEST_I2C_ADDRESS = 0x7f"
definition RETRY_COUNT :: int where "RETRY_COUNT = 3"

text \<open>
  The controller owns the device (\<open>None\<close> once \<^verbatim>\<open>terminate\<close> has run), the dictionary of
  slaves and the FIFO sizes. An \<^verbatim>\<open>I2cPort\<close> is an object with an identity: the
  dictionary holds references into \<open>ports\<close>, the store of the port objects.
\<close>

record I2cController =
  ftdi :: "ftdi option"
  slaves :: "int \<rightharpoonup> nat"
  ports :: "I2cPort list"
  tx_size :: int
  rx_size :: int

text \<open>The command templates that \<^verbatim>\<open>__init__\<close> computes once; an \<^verbatim>\<open>Array('B')\<close> holds bytes.\<close>

definition direction :: int where
  "direction = SCL_BIT OR SDA_O_BIT"

definition immediate :: "mpsse \<Rightarrow> byte list" where
  "immediate K = [SEND_IMMEDIATE K]"

definition idle :: "mpsse \<Rightarrow> byte list" where
  "idle K = [SET_BITS_LOW K, word_of_int IDLE, word_of_int direction]"

definition data_low :: "mpsse \<Rightarrow> byte list" where
  "data_low K = [SET_BITS_LOW K, word_of_int (IDLE AND NOT SDA_O_BIT), word_of_int direction]"

definition clock_low_data_low :: "mpsse \<Rightarrow> byte list" where
  "clock_low_data_low K =
     [SET_BITS_LOW K, word_of_int (IDLE AND NOT (SDA_O_BIT OR SCL_BIT)), word_of_int direction]"

definition clock_low_data_high :: "mpsse \<Rightarrow> byte list" where
  "clock_low_data_high K =
     [SET_BITS_LOW K, word_of_int (IDLE AND NOT SCL_BIT), word_of_int direction]"

definition read_bit :: "mpsse \<Rightarrow> byte list" where
  "read_bit K = [READ_BITS_PVE_MSB K, 0]"

definition read_byte :: "mpsse \<Rightarrow> byte list" where
  "read_byte K = [READ_BYTES_PVE_MSB K, 0, 0]"

definition write_byte :: "mpsse \<Rightarrow> byte list" where
  "write_byte K = [WRITE_BYTES_NVE_MSB K, 0, 0]"

definition nack :: "mpsse \<Rightarrow> byte list" where
  "nack K = [WRITE_BITS_NVE_MSB K, 0, word_of_int HIGH]"

definition ack :: "mpsse \<Rightarrow> byte list" where
  "ack K = [WRITE_BITS_NVE_MSB K, 0, word_of_int LOW]"

definition start :: "mpsse \<Rightarrow> byte list" where
  "start K = concat (replicate 4 (data_low K)) @ concat (replicate 4 (clock_low_data_low K))"

definition stop :: "mpsse \<Rightarrow> byte list" where
  "stop K = concat (replicate 4 (clock_low_data_low K)) @ concat (replicate 4 (data_low K))
            @ concat (replicate 4 (idle K))"

text \<open>
  \<^verbatim>\<open>__init__\<close>: the device object exists from the start (\<open>f0\<close> is what \<^verbatim>\<open>Ftdi()\<close> built), no
  slave is known, both FIFO sizes are 1.
\<close>

definition I2cController_init :: "ftdi \<Rightarrow> I2cController" where
  "I2cController_init f0 =
     \<lparr>ftdi = Some f0, slaves = Map.empty, ports = [], tx_size = 1, rx_size = 1\<rparr>"

definition terminate :: "I2cController \<Rightarrow> I2cController" where
  "terminate c = (case ftdi c of None \<Rightarrow> c | Some _ \<Rightarrow> c\<lparr>ftdi := None\<rparr>)"

definition validate_address :: "int \<Rightarrow> error + unit" where
  "validate_address a =
     (if a > HIGHEST_I2C_ADDRESS then Inl (I2cIOError ''No such I2c slave'') else Inr ())"

text \<open>
  \<^verbatim>\<open>get_port\<close>. The test \<^verbatim>\<open>not self._ftdi\<close> is on an object of a class without
  \<^verbatim>\<open>__bool__\<close> or \<^verbatim>\<open>__len__\<close>, so it holds exactly when the attribute is \<^verbatim>\<open>None\<close>. A new
  port is allocated at the end of the store.
\<close>

definition get_port :: "I2cController \<Rightarrow> int \<Rightarrow> (error + nat) \<times> I2cController" where
  "get_port c a =
     (if ftdi c = None then (Inl (I2cIOError ''FTDI controller not initialized''), c)
      else case validate_address a of
        Inl e \<Rightarrow> (Inl e, c)
      | Inr _ \<Rightarrow>
         (case slaves c a of
            None \<Rightarrow> (Inr (length (ports c)),
                     c\<lparr>slaves := (slaves c)(a \<mapsto> length (ports c)),
                       ports := ports c @ [I2cPort_init a]\<rparr>)
          | Some r \<Rightarrow> (Inr r, c)))"

subsection \<open>Access to the device through the controller\<close>

text \<open>A method call on \<^verbatim>\<open>self._ftdi\<close> when it is \<^verbatim>\<open>None\<close> raises \<^verbatim>\<open>AttributeError\<close>.\<close>

definition write_data :: "I2cController \<Rightarrow> byte list \<Rightarrow> (error + unit) \<times> I2cController" where
  "write_data c cmd =
     (case ftdi c of
        None \<Rightarrow> (Inl AttributeError, c)
      | Some f \<Rightarrow> (case ftdi_write_data f cmd of (r, f') \<Rightarrow> (r, c\<lparr>ftdi := Some f'\<rparr>)))"

definition read_data_bytes ::
  "I2cController \<Rightarrow> int \<Rightarrow> int \<Rightarrow> (error + byte list) \<times> I2cController" where
  "read_data_bytes c sz attempt =
     (case ftdi c of
        None \<Rightarrow> (Inl AttributeError, c)
      | Some f \<Rightarrow> (case ftdi_read_data_bytes f sz attempt of (r, f') \<Rightarrow> (r, c\<lparr>ftdi := Some f'\<rparr>)))"

subsection \<open>Prolog, epilog, payload write\<close>

definition prolog_cmd :: "mpsse \<Rightarrow> int \<Rightarrow> byte list" where
  "prolog_cmd K i2caddress =
     idle K @ start K @ write_byte K @ [word_of_int i2caddress] @ clock_low_data_high K
     @ read_bit K @ immediate K"

definition do_prolog :: "mpsse \<Rightarrow> I2cController \<Rightarrow> int \<Rightarrow> (error + unit) \<times> I2cController" where
  "do_prolog K c i2caddress =
     (case write_data c (prolog_cmd K i2caddress) of
        (Inl e, c1) \<Rightarrow> (Inl e, c1)
      | (Inr _, c1) \<Rightarrow>
         (case read_data_bytes c1 1 4 of
            (Inl e, c2) \<Rightarrow> (Inl e, c2)
          | (Inr a, c2) \<Rightarrow>
             (case a of
                [] \<Rightarrow> (Inl (I2cIOError ''No answer from FTDI''), c2)
              | a0 # _ \<Rightarrow>
                 if a0 AND word_of_int BIT0 \<noteq> 0
                 then (Inl (I2cNackError ''NACK from slave''), c2)
                 else (Inr (), c2))))"

definition do_epilog :: "mpsse \<Rightarrow> I2cController \<Rightarrow> (error + unit) \<times> I2cController" where
  "do_epilog K c =
     (case write_data c (stop K) of
        (Inl e, c1) \<Rightarrow> (Inl e, c1)
      | (Inr _, c1) \<Rightarrow>
         (case read_data_bytes c1 1 1 of
            (Inl e, c2) \<Rightarrow> (Inl e, c2)
          | (Inr _, c2) \<Rightarrow> (Inr (), c2)))"

definition write_cmd :: "mpsse \<Rightarrow> byte \<Rightarrow> byte list" where
  "write_cmd K b = write_byte K @ [b] @ clock_low_data_high K @ read_bit K @ immediate K"

text \<open>
  The payload \<^verbatim>\<open>out\<close> is a bytes-like object (\<^verbatim>\<open>bytes\<close>, \<^verbatim>\<open>bytearray\<close>, an array of bytes) or a
  list or tuple of integers, as in the class docstring, \<^verbatim>\<open>i2c.write([0x12, 0x34])\<close>, and in
  the test, \<^verbatim>\<open>port.exchange([0x04], 1)\<close>. \<^verbatim>\<open>len(out)\<close> and \<^verbatim>\<open>not out\<close> are defined on both.
  \<^verbatim>\<open>binascii.hexlify\<close> reads the buffer of a bytes-like object and raises \<^verbatim>\<open>TypeError\<close> on
  a list or a tuple; \<open>hexlify\<close> is the buffer read, in place of its hexadecimal digits,
  which only go to the log.
\<close>

datatype payload = Bytes "byte list" | Ints "int list"

definition payload_len :: "payload \<Rightarrow> nat" where
  "payload_len out = (case out of Bytes bs \<Rightarrow> length bs | Ints xs \<Rightarrow> length xs)"

definition hexlify :: "payload \<Rightarrow> error + byte list" where
  "hexlify out = (case out of Bytes bs \<Rightarrow> Inr bs | Ints _ \<Rightarrow> Inl TypeError)"

text \<open>The loop \<^verbatim>\<open>for byte in out:\<close> of \<^verbatim>\<open>_do_write\<close>, over the bytes of a bytes-like object.\<close>

fun do_write_loop ::
  "mpsse \<Rightarrow> I2cController \<Rightarrow> byte list \<Rightarrow> (error + unit) \<times> I2cController" where
  "do_write_loop K c [] = (Inr (), c)"
| "do_write_loop K c (b # out) =
     (case write_data c (write_cmd K b) of
        (Inl e, c1) \<Rightarrow> (Inl e, c1)
      | (Inr _, c1) \<Rightarrow>
         (case read_data_bytes c1 1 4 of
            (Inl e, c2) \<Rightarrow> (Inl e, c2)
          | (Inr a, c2) \<Rightarrow>
             (case a of
                [] \<Rightarrow> (Inl (I2cIOError ''No answer from FTDI''), c2)
              | a0 # _ \<Rightarrow>
                 if a0 AND word_of_int BIT0 \<noteq> 0
                 then (Inl (I2cNackError ''NACK from slave''), c2)
                 else do_write_loop K c2 out)))"

text \<open>
  \<^verbatim>\<open>_do_write\<close>. Its first statement, \<^verbatim>\<open>self.log.debug(..., len(out), hexlify(out).decode())\<close>,
  evaluates \<^verbatim>\<open>hexlify(out)\<close> before anything is sent: on a list or a tuple the method
  ends there with \<^verbatim>\<open>TypeError\<close>. Otherwise the loop runs over the bytes of the buffer, the
  ones \<^verbatim>\<open>hexlify\<close> has read.
\<close>

definition do_write :: "mpsse \<Rightarrow> I2cController \<Rightarrow> payload \<Rightarrow> (error + unit) \<times> I2cController" where
  "do_write K c out =
     (case hexlify out of
        Inl e \<Rightarrow> (Inl e, c)
      | Inr bs \<Rightarrow> do_write_loop K c bs)"

subsection \<open>Chunked read\<close>

definition read_not_last :: "mpsse \<Rightarrow> byte list" where
  "read_not_last K = read_byte K @ ack K @ clock_low_data_high K"

definition read_last :: "mpsse \<Rightarrow> byte list" where
  "read_last K = read_byte K @ nack K @ clock_low_data_high K"

text \<open>The chunk size of \<^verbatim>\<open>_do_read\<close>, lines 437 to 442.\<close>

definition chunk_size :: "mpsse \<Rightarrow> I2cController \<Rightarrow> int" where
  "chunk_size K c =
     (let chunk_size = rx_size c - 2;
          cmd_size = int (length (read_last K));
          tx_count = (tx_size c - 1) div cmd_size
      in min tx_count chunk_size)"

text \<open>
  The loop \<^verbatim>\<open>while count:\<close>. It does not end when the chunk size is negative, so it is
  a partial function: \<open>None\<close> is a run that never returns. \<^verbatim>\<open>last_count\<close> is never
  assigned in the loop. \<^verbatim>\<open>cmd\<close> and \<^verbatim>\<open>last_cmd\<close> are the same array object in both
  branches, so extending \<^verbatim>\<open>cmd\<close> by the immediate marker extends \<^verbatim>\<open>last_cmd\<close>. A tuple
  times a negative number is empty. \<^verbatim>\<open>cmd.extend\<close> on \<^verbatim>\<open>None\<close> raises \<^verbatim>\<open>AttributeError\<close>;
  the device handed \<^verbatim>\<open>None\<close> instead of a buffer raises \<^verbatim>\<open>TypeError\<close>.
\<close>

partial_function (option) do_read_loop ::
  "mpsse \<Rightarrow> int \<Rightarrow> int \<Rightarrow> I2cController \<Rightarrow> byte list list \<Rightarrow> byte list option \<Rightarrow> int
     \<Rightarrow> ((error + byte list) \<times> I2cController) option" where
  "do_read_loop K chunk last_count c chunks last_cmd count =
     (if count = 0 then Some (Inr (concat chunks), c)
      else
        let block_count = min count chunk;
            count' = count - block_count;
            cmd = (if last_count \<noteq> block_count
                   then Some (concat (replicate (nat (block_count - 1)) (read_not_last K))
                              @ read_last K)
                   else last_cmd)
        in case (if count' \<le> 0
                 then (case cmd of None \<Rightarrow> Inl AttributeError
                                 | Some b \<Rightarrow> Inr (Some (b @ immediate K)))
                 else Inr cmd) of
             Inl e \<Rightarrow> Some (Inl e, c)
           | Inr None \<Rightarrow> Some (Inl TypeError, c)
           | Inr (Some b) \<Rightarrow>
              (case write_data c b of
                 (Inl e, c1) \<Rightarrow> Some (Inl e, c1)
               | (Inr _, c1) \<Rightarrow>
                  (case read_data_bytes c1 block_count 4 of
                     (Inl e, c2) \<Rightarrow> Some (Inl e, c2)
                   | (Inr buf, c2) \<Rightarrow>
                      do_read_loop K chunk last_count c2 (chunks @ [buf]) (Some b) count')))"

declare do_read_loop.simps [code]

definition do_read ::
  "mpsse \<Rightarrow> I2cController \<Rightarrow> int \<Rightarrow> ((error + byte list) \<times> I2cController) option" where
  "do_read K c readlen = do_read_loop K (chunk_size K c) 0 c [] None readlen"

subsection \<open>The top-level operations\<close>

text \<open>
  \<^verbatim>\<open>finally: self._do_epilog()\<close> runs the epilog on the pending outcome of the \<^verbatim>\<open>try\<close>
  block, a return value or an exception; an exception raised by the epilog itself
  replaces that outcome.
\<close>

definition finally_epilog ::
  "mpsse \<Rightarrow> (error + 'a) \<times> I2cController \<Rightarrow> (error + 'a) \<times> I2cController" where
  "finally_epilog K rc =
     (case rc of (r, c1) \<Rightarrow>
        (case do_epilog K c1 of (Inl e, c2) \<Rightarrow> (Inl e, c2) | (Inr _, c2) \<Rightarrow> (r, c2)))"

text \<open>The body of the \<^verbatim>\<open>try\<close> block of \<^verbatim>\<open>read\<close>, of \<^verbatim>\<open>write\<close> and of \<^verbatim>\<open>exchange\<close>.\<close>

definition read_try ::
  "mpsse \<Rightarrow> I2cController \<Rightarrow> int \<Rightarrow> int \<Rightarrow> ((error + byte list) \<times> I2cController) option" where
  "read_try K c i2caddress readlen =
     (case do_prolog K c i2caddress of
        (Inl e, c1) \<Rightarrow> Some (Inl e, c1)
      | (Inr _, c1) \<Rightarrow> do_read K c1 readlen)"

definition write_try ::
  "mpsse \<Rightarrow> I2cController \<Rightarrow> int \<Rightarrow> payload \<Rightarrow> (error + unit) \<times> I2cController" where
  "write_try K c i2caddress out =
     (case do_prolog K c i2caddress of
        (Inl e, c1) \<Rightarrow> (Inl e, c1)
      | (Inr _, c1) \<Rightarrow> do_write K c1 out)"

definition exchange_try ::
  "mpsse \<Rightarrow> I2cController \<Rightarrow> int \<Rightarrow> payload \<Rightarrow> int
     \<Rightarrow> ((error + byte list) \<times> I2cController) option" where
  "exchange_try K c i2caddress out readlen =
     (case do_prolog K c i2caddress of
        (Inl e, c1) \<Rightarrow> Some (Inl e, c1)
      | (Inr _, c1) \<Rightarrow>
         (case do_write K c1 out of
            (Inl e, c2) \<Rightarrow> Some (Inl e, c2)
          | (Inr _, c2) \<Rightarrow>
             (case do_prolog K c2 (i2caddress OR BIT0) of
                (Inl e, c3) \<Rightarrow> Some (Inl e, c3)
              | (Inr _, c3) \<Rightarrow> do_read K c3 readlen)))"

text \<open>
  The loop \<^verbatim>\<open>while True:\<close> around the \<^verbatim>\<open>try\<close> block. Only \<^verbatim>\<open>I2cNackError\<close> is caught: the
  handler decrements \<^verbatim>\<open>retries\<close>, raises again when it is zero and falls through
  otherwise; the epilog runs in each case. The loop is left by \<^verbatim>\<open>return\<close> or by an
  exception only, so it is a partial function as well.
\<close>

partial_function (option) read_loop ::
  "mpsse \<Rightarrow> I2cController \<Rightarrow> int \<Rightarrow> int \<Rightarrow> int
     \<Rightarrow> ((error + byte list) \<times> I2cController) option" where
  "read_loop K c i2caddress readlen retries =
     (case read_try K c i2caddress readlen of
        None \<Rightarrow> None
      | Some (Inl (I2cNackError m), c1) \<Rightarrow>
         (let retries' = retries - 1
          in if retries' = 0 then Some (finally_epilog K (Inl (I2cNackError m), c1))
             else (case do_epilog K c1 of
                     (Inl e, c2) \<Rightarrow> Some (Inl e, c2)
                   | (Inr _, c2) \<Rightarrow> read_loop K c2 i2caddress readlen retries'))
      | Some rc \<Rightarrow> Some (finally_epilog K rc))"

partial_function (option) write_loop ::
  "mpsse \<Rightarrow> I2cController \<Rightarrow> int \<Rightarrow> payload \<Rightarrow> int
     \<Rightarrow> ((error + unit) \<times> I2cController) option" where
  "write_loop K c i2caddress out retries =
     (case write_try K c i2caddress out of
        (Inl (I2cNackError m), c1) \<Rightarrow>
         (let retries' = retries - 1
          in if retries' = 0 then Some (finally_epilog K (Inl (I2cNackError m), c1))
             else (case do_epilog K c1 of
                     (Inl e, c2) \<Rightarrow> Some (Inl e, c2)
                   | (Inr _, c2) \<Rightarrow> write_loop K c2 i2caddress out retries'))
      | rc \<Rightarrow> Some (finally_epilog K rc))"

partial_function (option) exchange_loop ::
  "mpsse \<Rightarrow> I2cController \<Rightarrow> int \<Rightarrow> payload \<Rightarrow> int \<Rightarrow> int
     \<Rightarrow> ((error + byte list) \<times> I2cController) option" where
  "exchange_loop K c i2caddress out readlen retries =
     (case exchange_try K c i2caddress out readlen of
        None \<Rightarrow> None
      | Some (Inl (I2cNackError m), c1) \<Rightarrow>
         (let retries' = retries - 1
          in if retries' = 0 then Some (finally_epilog K (Inl (I2cNackError m), c1))
             else (case do_epilog K c1 of
                     (Inl e, c2) \<Rightarrow> Some (Inl e, c2)
                   | (Inr _, c2) \<Rightarrow> exchange_loop K c2 i2caddress out readlen retries'))
      | Some rc \<Rightarrow> Some (finally_epilog K rc))"

declare read_loop.simps [code]
declare write_loop.simps [code]
declare exchange_loop.simps [code]

definition read ::
  "mpsse \<Rightarrow> I2cController \<Rightarrow> int \<Rightarrow> int \<Rightarrow> ((error + byte list) \<times> I2cController) option" where
  "read K c a readlen =
     (if ftdi c = None then Some (Inl (I2cIOError ''FTDI controller not initialized''), c)
      else case validate_address a of
        Inl e \<Rightarrow> Some (Inl e, c)
      | Inr _ \<Rightarrow>
         if readlen < 1 then Some (Inl (I2cIOError ''Nothing to read''), c)
         else let i2caddress = push_bit 1 a AND HIGH;
                  i2caddress = i2caddress OR BIT0
              in read_loop K c i2caddress readlen RETRY_COUNT)"

definition "write" ::
  "mpsse \<Rightarrow> I2cController \<Rightarrow> int \<Rightarrow> payload \<Rightarrow> ((error + unit) \<times> I2cController) option" where
  "write K c a out =
     (if ftdi c = None then Some (Inl (I2cIOError ''FTDI controller not initialized''), c)
      else case validate_address a of
        Inl e \<Rightarrow> Some (Inl e, c)
      | Inr _ \<Rightarrow>
         if payload_len out = 0 \<or> payload_len out < 1
         then Some (Inl (I2cIOError ''Nothing to write''), c)
         else let i2caddress = push_bit 1 a AND HIGH
              in write_loop K c i2caddress out RETRY_COUNT)"

text \<open>
  \<^verbatim>\<open>readlen > (I2cController.PAYLOAD_MAX_LENGTH/3-1)\<close> compares an integer with the
  quotient 65536/3 - 1, taken here in the reals, as the true division of Python 3 does;
  with the floor division of Python 2 the test accepts and rejects the same lengths.
\<close>

definition exchange ::
  "mpsse \<Rightarrow> I2cController \<Rightarrow> int \<Rightarrow> payload \<Rightarrow> int
     \<Rightarrow> ((error + byte list) \<times> I2cController) option" where
  "exchange K c a out readlen =
     (if ftdi c = None then Some (Inl (I2cIOError ''FTDI controller not initialized''), c)
      else case validate_address a of
        Inl e \<Rightarrow> Some (Inl e, c)
      | Inr _ \<Rightarrow>
         if payload_len out = 0 \<or> payload_len out = 0
         then Some (Inl (I2cIOError ''Nothing to write''), c)
         else if readlen < 1 then Some (Inl (I2cIOError ''Nothing to read''), c)
         else if real_of_int readlen > real_of_int PAYLOAD_MAX_LENGTH / 3 - 1
           then Some (Inl (I2cIOError ''Input payload is too large''), c)
         else let i2caddress = push_bit 1 a AND HIGH
              in exchange_loop K c i2caddress out readlen RETRY_COUNT)"

definition poll :: "mpsse \<Rightarrow> I2cController \<Rightarrow> int \<Rightarrow> (error + bool) \<times> I2cController" where
  "poll K c a =
     (if ftdi c = None then (Inl (I2cIOError ''FTDI controller not initialized''), c)
      else case validate_address a of
        Inl e \<Rightarrow> (Inl e, c)
      | Inr _ \<Rightarrow>
         let i2caddress = push_bit 1 a AND HIGH;
             i2caddress = i2caddress OR BIT0
         in finally_epilog K
              (case do_prolog K c i2caddress of
                 (Inr _, c1) \<Rightarrow> (Inr True, c1)
               | (Inl (I2cNackError _), c1) \<Rightarrow> (Inr False, c1)
               | (Inl e, c1) \<Rightarrow> (Inl e, c1)))"

subsection \<open>The methods of I2cPort\<close>

text \<open>
  \<^verbatim>\<open>struct.pack\<close> of one unsigned integer of 1, 2 or 4 bytes, little endian unless the
  byte order character is \<^verbatim>\<open>>\<close>; a value out of range raises \<^verbatim>\<open>struct.error\<close>.
\<close>

fun le_bytes :: "nat \<Rightarrow> int \<Rightarrow> byte list" where
  "le_bytes 0 v = []"
| "le_bytes (Suc n) v = word_of_int (v mod 256) # le_bytes n (v div 256)"

definition spack :: "char \<Rightarrow> char \<Rightarrow> int \<Rightarrow> error + byte list" where
  "spack e fmt v =
     (if 0 \<le> v \<and> v < 2 ^ (8 * scalc fmt)
      then Inr (if e = CHR ''>'' then rev (le_bytes (scalc fmt) v) else le_bytes (scalc fmt) v)
      else Inl StructError)"

text \<open>The two methods that change the port return it: unchanged where they raise.\<close>

definition configure_register :: "I2cPort \<Rightarrow> bool \<Rightarrow> int \<Rightarrow> (error + unit) \<times> I2cPort" where
  "configure_register p bigendian width =
     (case FORMATS width of
        None \<Rightarrow> (Inl (I2cIOError ''Unsupported integer width''), p)
      | Some fmt \<Rightarrow>
         (Inr (), p\<lparr>format := fmt, endian := (if bigendian then CHR ''>'' else CHR ''<'')\<rparr>))"

definition shift_address :: "I2cPort \<Rightarrow> int \<Rightarrow> (error + unit) \<times> I2cPort" where
  "shift_address p offset =
     (case validate_address (address p + offset) of
        Inl e \<Rightarrow> (Inl e, p)
      | Inr _ \<Rightarrow> (Inr (), p\<lparr>shift := offset\<rparr>))"

definition make_buffer :: "I2cPort \<Rightarrow> int \<Rightarrow> byte list option \<Rightarrow> error + byte list" where
  "make_buffer p regaddr out =
     (case spack (endian p) (format p) regaddr of
        Inl e \<Rightarrow> Inl e
      | Inr data \<Rightarrow>
         Inr (case out of None \<Rightarrow> data | Some bs \<Rightarrow> if bs \<noteq> [] then data @ bs else data))"

definition port_read ::
  "mpsse \<Rightarrow> I2cController \<Rightarrow> I2cPort \<Rightarrow> int \<Rightarrow> ((error + byte list) \<times> I2cController) option" where
  "port_read K c p readlen = read K c (address p + shift p) readlen"

definition port_write ::
  "mpsse \<Rightarrow> I2cController \<Rightarrow> I2cPort \<Rightarrow> payload \<Rightarrow> ((error + unit) \<times> I2cController) option" where
  "port_write K c p out = write K c (address p + shift p) out"

definition read_from ::
  "mpsse \<Rightarrow> I2cController \<Rightarrow> I2cPort \<Rightarrow> int \<Rightarrow> int
     \<Rightarrow> ((error + byte list) \<times> I2cController) option" where
  "read_from K c p regaddr readlen =
     (case make_buffer p regaddr None of
        Inl e \<Rightarrow> Some (Inl e, c)
      | Inr buf \<Rightarrow> exchange K c (address p + shift p) (Bytes buf) readlen)"

definition write_to ::
  "mpsse \<Rightarrow> I2cController \<Rightarrow> I2cPort \<Rightarrow> int \<Rightarrow> byte list
     \<Rightarrow> ((error + unit) \<times> I2cController) option" where
  "write_to K c p regaddr out =
     (case make_buffer p regaddr (Some out) of
        Inl e \<Rightarrow> Some (Inl e, c)
      | Inr buf \<Rightarrow> write K c (address p + shift p) (Bytes buf))"

definition port_exchange ::
  "mpsse \<Rightarrow> I2cController \<Rightarrow> I2cPort \<Rightarrow> payload \<Rightarrow> int
     \<Rightarrow> ((error + byte list) \<times> I2cController) option" where
  "port_exchange K c p out readlen = exchange K c (address p + shift p) out readlen"

definition port_poll :: "mpsse \<Rightarrow> I2cController \<Rightarrow> I2cPort \<Rightarrow> (error + bool) \<times> I2cController" where
  "port_poll K c p = poll K c (address p + shift p)"

text \<open>A run of \<^verbatim>\<open>get_port\<close> calls, one per address of the list, whatever each returns.\<close>

definition get_ports :: "I2cController \<Rightarrow> int list \<Rightarrow> I2cController" where
  "get_ports c bs = foldl (\<lambda>c b. snd (get_port c b)) c bs"

subsection \<open>Traces of device calls\<close>

text \<open>
  The definitions of this part serve the statements below; none is code of the driver.
  \<open>extend c t\<close> is the controller \<open>c\<close> after its device has received the calls \<open>t\<close>,
  nothing else changed.
\<close>

definition extend :: "I2cController \<Rightarrow> call list \<Rightarrow> I2cController" where
  "extend c t = c\<lparr>ftdi := map_option (\<lambda>f. f\<lparr>calls := calls f @ t\<rparr>) (ftdi c)\<rparr>"

text \<open>A reply to an ack check: the slave acknowledged, or it did not.\<close>

definition is_ack :: "reply \<Rightarrow> bool" where
  "is_ack r = (case r of Reply (a0 # _) \<Rightarrow> a0 AND 1 = 0 | _ \<Rightarrow> False)"

definition is_nack :: "reply \<Rightarrow> bool" where
  "is_nack r = (case r of Reply (a0 # _) \<Rightarrow> a0 AND 1 \<noteq> 0 | _ \<Rightarrow> False)"

text \<open>What the prolog and the payload write make of the device's answer to an ack check.\<close>

definition ack_check :: "reply \<Rightarrow> error + unit" where
  "ack_check r =
     (case r of
        Fault \<Rightarrow> Inl FtdiError
      | Reply [] \<Rightarrow> Inl (I2cIOError ''No answer from FTDI'')
      | Reply (a0 # _) \<Rightarrow>
         if a0 AND 1 \<noteq> 0 then Inl (I2cNackError ''NACK from slave'') else Inr ())"

text \<open>
  The calls for one payload byte, and for a run of payload bytes. For the payload \<open>out\<close>
  written to the device \<open>f\<close>: whether the device takes the command for byte \<open>j\<close>, and its
  reply to the ack check of byte \<open>j\<close>, the bytes before \<open>j\<close> having been written.
\<close>

definition write_unit :: "mpsse \<Rightarrow> byte \<Rightarrow> call list" where
  "write_unit K b = [WriteData (write_cmd K b), ReadData 1 4]"

definition sent :: "mpsse \<Rightarrow> byte list \<Rightarrow> call list" where
  "sent K bs = concat (map (write_unit K) bs)"

definition accepted :: "mpsse \<Rightarrow> ftdi \<Rightarrow> byte list \<Rightarrow> nat \<Rightarrow> bool" where
  "accepted K f out j =
     (behaviour f (calls f @ sent K (take j out) @ [WriteData (write_cmd K (out ! j))]) \<noteq> Fault)"

definition ack_reply :: "mpsse \<Rightarrow> ftdi \<Rightarrow> byte list \<Rightarrow> nat \<Rightarrow> reply" where
  "ack_reply K f out j = behaviour f (calls f @ sent K (take (Suc j) out))"

text \<open>
  The calls of an attempt that ends at a refused prolog: prolog command, ack check, stop
  command, read of the reply to it. A controller whose device never fails and answers
  the ack check of every prolog with a negative acknowledgement.
\<close>

definition nacked_attempt :: "mpsse \<Rightarrow> int \<Rightarrow> call list" where
  "nacked_attempt K i2caddress =
     [WriteData (prolog_cmd K i2caddress), ReadData 1 4, WriteData (stop K), ReadData 1 1]"

definition nacks_every_prolog :: "mpsse \<Rightarrow> I2cController \<Rightarrow> bool" where
  "nacks_every_prolog K c \<longleftrightarrow>
     (\<exists>f. ftdi c = Some f \<and> (\<forall>h. behaviour f h \<noteq> Fault)
        \<and> (\<forall>h i. is_nack (behaviour f (h @ [WriteData (prolog_cmd K i), ReadData 1 4]))))"




text \<open>
  The commands a \<^verbatim>\<open>try\<close> block writes after its first prolog: the command of a payload
  byte, which is 10 bytes long, a command of the chunked read, which starts with the
  opcode for reading bytes, or the prolog command for one of the further address bytes
  \<open>js\<close> (the second prolog of \<^verbatim>\<open>exchange\<close>).
\<close>

definition body_cmd :: "mpsse \<Rightarrow> int list \<Rightarrow> byte list \<Rightarrow> bool" where
  "body_cmd K js b \<longleftrightarrow>
     length b = 10 \<or> (b \<noteq> [] \<and> hd b = READ_BYTES_PVE_MSB K) \<or> b \<in> prolog_cmd K ` set js"

definition body_calls :: "mpsse \<Rightarrow> int list \<Rightarrow> call list \<Rightarrow> bool" where
  "body_calls K js t \<longleftrightarrow> (\<forall>b. WriteData b \<in> set t \<longrightarrow> body_cmd K js b)"

text \<open>
  A list of calls in which every command written starts with the opcode for reading
  bytes. The exceptions that can come from the device or from the bus, as opposed to the
  ones raised by the checks of the arguments.
\<close>

definition read_cmds :: "mpsse \<Rightarrow> call list \<Rightarrow> bool" where
  "read_cmds K t \<longleftrightarrow> (\<forall>b. WriteData b \<in> set t \<longrightarrow> b \<noteq> [] \<and> hd b = READ_BYTES_PVE_MSB K)"

definition bus_error :: "error \<Rightarrow> bool" where
  "bus_error e \<longleftrightarrow>
     e \<in> {FtdiError, AttributeError, TypeError, I2cIOError ''No answer from FTDI'',
          I2cNackError ''NACK from slave''}"

text \<open>
  The dictionary of slaves is well formed when each of its references is a port of the
  store that carries the address it is filed under. The outcome of a \<^verbatim>\<open>try\<close> block is
  nacked when it is the exception \<^verbatim>\<open>I2cNackError\<close>.
\<close>

definition wf_slaves :: "I2cController \<Rightarrow> bool" where
  "wf_slaves c \<longleftrightarrow>
     (\<forall>a r. slaves c a = Some r \<longrightarrow> r < length (ports c) \<and> address (ports c ! r) = a)"


subsection \<open>Concrete instances\<close>

text \<open>
  For the closed instances of the theorems below: the MPSSE opcodes of FTDI's
  application note AN 108, a device that acknowledges everything and returns as many
  zero bytes as are asked for, a device that answers every call with the byte 1, a
  device that answers its first three calls with the byte 0 and all later ones with 1,
  a device that answers every call with no byte at all, two devices that fail on
  their third call and answer the others with the byte 0, or with the byte 1, and a
  device that answers its first three calls with the byte 1 and the later ones with no
  byte. \<open>one_port\<close> is a controller that has handed out the port of address 0x21.
  \<open>configured f tx rx\<close> is the
  controller once \<^verbatim>\<open>configure\<close> has opened the device \<open>f\<close> and stored its FIFO sizes.
\<close>

definition K0 :: mpsse where
  "K0 = \<lparr>SET_BITS_LOW = 0x80, SEND_IMMEDIATE = 0x87, READ_BITS_PVE_MSB = 0x22,
         READ_BYTES_PVE_MSB = 0x20, WRITE_BYTES_NVE_MSB = 0x11, WRITE_BITS_NVE_MSB = 0x13\<rparr>"

definition acking :: ftdi where
  "acking = \<lparr>behaviour = (\<lambda>h. case last h of
                               ReadData n _ \<Rightarrow> Reply (replicate (nat n) 0)
                             | WriteData _ \<Rightarrow> Reply []),
             calls = []\<rparr>"

definition nacking :: ftdi where
  "nacking = \<lparr>behaviour = (\<lambda>h. Reply [1]), calls = []\<rparr>"

definition configured :: "ftdi \<Rightarrow> int \<Rightarrow> int \<Rightarrow> I2cController" where
  "configured f tx rx = (I2cController_init f)\<lparr>tx_size := tx, rx_size := rx\<rparr>"

definition ack_then_nack :: ftdi where
  "ack_then_nack =
     \<lparr>behaviour = (\<lambda>h. if length h < 4 then Reply [0] else Reply [1]), calls = []\<rparr>"





definition one_port :: I2cController where
  "one_port = (configured acking 128 384)\<lparr>slaves := [0x21 \<mapsto> 0], ports := [I2cPort_init 0x21]\<rparr>"

section \<open>The device trace of the primitives\<close>

lemma extend_Nil [simp]: "extend c [] = c"
  by (cases "ftdi c") (simp_all add: extend_def)

lemma extend_extend [simp]: "extend (extend c t) u = extend c (t @ u)"
  by (cases "ftdi c") (simp_all add: extend_def)

lemma ftdi_extend: "ftdi c = Some f \<Longrightarrow> ftdi (extend c t) = Some (f\<lparr>calls := calls f @ t\<rparr>)"
  by (simp add: extend_def)

lemma write_data_eq:
  "ftdi c = Some f \<Longrightarrow>
   write_data c cmd =
     (if behaviour f (calls f @ [WriteData cmd]) = Fault then Inl FtdiError else Inr (),
      extend c [WriteData cmd])"
  by (simp add: write_data_def ftdi_write_data_def extend_def Let_def split: reply.splits)

lemma read_data_bytes_eq:
  "ftdi c = Some f \<Longrightarrow>
   read_data_bytes c n a =
     (case behaviour f (calls f @ [ReadData n a]) of Fault \<Rightarrow> Inl FtdiError | Reply bs \<Rightarrow> Inr bs,
      extend c [ReadData n a])"
  by (simp add: read_data_bytes_def ftdi_read_data_bytes_def extend_def Let_def split: reply.splits)

lemma do_prolog_eq:
  "ftdi c = Some f \<Longrightarrow>
   do_prolog K c a =
     (if behaviour f (calls f @ [WriteData (prolog_cmd K a)]) = Fault
      then (Inl FtdiError, extend c [WriteData (prolog_cmd K a)])
      else (ack_check (behaviour f (calls f @ [WriteData (prolog_cmd K a), ReadData 1 4])),
            extend c [WriteData (prolog_cmd K a), ReadData 1 4]))"
  by (simp add: do_prolog_def write_data_eq read_data_bytes_eq ftdi_extend ack_check_def BIT0_def
           split: reply.splits list.splits)

lemma do_epilog_eq:
  "ftdi c = Some f \<Longrightarrow>
   do_epilog K c =
     (if behaviour f (calls f @ [WriteData (stop K)]) = Fault
      then (Inl FtdiError, extend c [WriteData (stop K)])
      else (if behaviour f (calls f @ [WriteData (stop K), ReadData 1 1]) = Fault then Inl FtdiError else Inr (),
            extend c [WriteData (stop K), ReadData 1 1]))"
  by (simp add: do_epilog_def write_data_eq read_data_bytes_eq ftdi_extend
           split: reply.splits list.splits)

lemma do_write_loop_Cons_eq:
  "ftdi c = Some f \<Longrightarrow>
   do_write_loop K c (b # out) =
     (if behaviour f (calls f @ [WriteData (write_cmd K b)]) = Fault
      then (Inl FtdiError, extend c [WriteData (write_cmd K b)])
      else case ack_check (behaviour f (calls f @ write_unit K b)) of
             Inl e \<Rightarrow> (Inl e, extend c (write_unit K b))
           | Inr _ \<Rightarrow> do_write_loop K (extend c (write_unit K b)) out)"
  by (simp add: write_data_eq read_data_bytes_eq ftdi_extend ack_check_def BIT0_def write_unit_def
           split: reply.splits list.splits)

lemma payload_len_simps [simp]:
  "payload_len (Bytes bs) = length bs" "payload_len (Ints xs) = length xs"
  by (simp_all add: payload_len_def)

lemma do_write_Bytes: "do_write K c (Bytes out) = do_write_loop K c out"
  by (simp add: do_write_def hexlify_def)

lemma do_write_Ints: "do_write K c (Ints xs) = (Inl TypeError, c)"
  by (simp add: do_write_def hexlify_def)

section \<open>Payload write of a bytes-like object\<close>

lemma ack_check_ack: "is_ack r \<Longrightarrow> ack_check r = Inr ()"
  by (auto simp: is_ack_def ack_check_def split: reply.splits list.splits)

lemma ack_check_nack: "is_nack r \<Longrightarrow> ack_check r = Inl (I2cNackError ''NACK from slave'')"
  by (auto simp: is_nack_def ack_check_def split: reply.splits list.splits)

lemma ack_check_empty: "ack_check (Reply []) = Inl (I2cIOError ''No answer from FTDI'')"
  by (simp add: ack_check_def)

lemma sent_Cons: "sent K (b # bs) = write_unit K b @ sent K bs"
  by (simp add: sent_def)

lemma accepted_Suc:
  "accepted K (f\<lparr>calls := calls f @ write_unit K b\<rparr>) out j = accepted K f (b # out) (Suc j)"
  by (simp add: accepted_def sent_Cons)

lemma ack_reply_Suc:
  "ack_reply K (f\<lparr>calls := calls f @ write_unit K b\<rparr>) out j = ack_reply K f (b # out) (Suc j)"
  by (simp add: ack_reply_def sent_Cons)

lemma do_write_first_refusal:
  "ftdi c = Some f \<Longrightarrow> k < length out \<Longrightarrow>
   \<forall>j<k. accepted K f out j \<and> is_ack (ack_reply K f out j) \<Longrightarrow>
   accepted K f out k \<Longrightarrow>
   do_write_loop K c out =
     (case ack_check (ack_reply K f out k) of
        Inl e \<Rightarrow> (Inl e, extend c (sent K (take (Suc k) out)))
      | Inr _ \<Rightarrow> do_write_loop K (extend c (sent K (take (Suc k) out))) (drop (Suc k) out))"
proof (induction k arbitrary: c f out)
  case 0
  then obtain b out' where out: "out = b # out'" by (cases out) auto
  from 0 show ?case
    by (simp add: out do_write_loop_Cons_eq accepted_def ack_reply_def sent_def
          del: do_write_loop.simps cong: sum.case_cong)
next
  case (Suc k)
  then obtain b out' where out: "out = b # out'" by (cases out) auto
  let ?f = "f\<lparr>calls := calls f @ write_unit K b\<rparr>"
  let ?c = "extend c (write_unit K b)"
  have a0: "accepted K f out 0" and r0: "is_ack (ack_reply K f out 0)"
    using Suc.prems(3) by auto
  have step: "do_write_loop K c out = do_write_loop K ?c out'"
    using a0 r0 Suc.prems(1)
    by (simp add: out do_write_loop_Cons_eq accepted_def ack_reply_def sent_def ack_check_ack
          del: do_write_loop.simps)
  have f': "ftdi ?c = Some ?f" using Suc.prems(1) by (simp add: ftdi_extend)
  have k: "k < length out'" using Suc.prems(2) out by simp
  have all: "\<forall>j<k. accepted K ?f out' j \<and> is_ack (ack_reply K ?f out' j)"
    using Suc.prems(3) by (auto simp: accepted_Suc ack_reply_Suc out)
  have acc: "accepted K ?f out' k"
    using Suc.prems(4) by (simp add: accepted_Suc out)
  show ?case
    unfolding step using Suc.IH [OF f' k all acc]
    by (simp add: ack_reply_Suc out sent_Cons cong: sum.case_cong)
qed

text \<open>
  The write command of a byte is the write template, the byte, the template that
  releases the data line, the read-bit template and the flush opcode, so the byte sits at index 3 of a command of 10 bytes.
\<close>

lemma write_cmd_carries_byte:
  "length (write_cmd K b) = 10 \<and> write_cmd K b ! 3 = b
   \<and> take 3 (write_cmd K b) = write_byte K
   \<and> drop 4 (write_cmd K b) = clock_low_data_high K @ read_bit K @ immediate K
   \<and> (write_cmd K b = write_cmd K b' \<longleftrightarrow> b = b')"
  by (simp add: write_cmd_def write_byte_def read_bit_def immediate_def clock_low_data_high_def)

text \<open>
  \<^verbatim>\<open>_do_write\<close> on a bytes-like payload whose bytes before index \<open>k\<close> were all taken by the
  device and acknowledged, and whose byte \<open>k\<close> the device takes. The calls made are, for
  each of the bytes up to \<open>k\<close> in the order of the payload, the write command of that byte
  and then one read of one byte, and nothing after them: if the reply for byte \<open>k\<close> is
  empty the result is \<^verbatim>\<open>I2cIOError('No answer from FTDI')\<close>; if its first byte has bit 0
  set the result is \<^verbatim>\<open>I2cNackError\<close>, with no byte after \<open>k\<close> sent; if byte \<open>k\<close> is
  acknowledged and is the last one, the write returns with the whole payload sent.
\<close>

lemma do_write_bytes_first_refusal:
  assumes "ftdi c = Some f" and "k < length out"
    and "\<forall>j<k. accepted K f out j \<and> is_ack (ack_reply K f out j)"
    and "accepted K f out k"
  shows "(ack_reply K f out k = Reply [] \<longrightarrow>
            do_write K c (Bytes out) = (Inl (I2cIOError ''No answer from FTDI''),
                                extend c (sent K (take (Suc k) out))))
       \<and> (is_nack (ack_reply K f out k) \<longrightarrow>
            do_write K c (Bytes out) = (Inl (I2cNackError ''NACK from slave''),
                                extend c (sent K (take (Suc k) out))))
       \<and> (is_ack (ack_reply K f out k) \<and> Suc k = length out \<longrightarrow>
            do_write K c (Bytes out) = (Inr (), extend c (sent K out)))"
  using do_write_first_refusal [OF assms]
  by (auto simp: ack_check_ack ack_check_nack ack_check_empty do_write_Bytes)

lemma do_write_bytes_example:
  "do_write K0 (configured ack_then_nack 128 384) (Bytes [0x10, 0x20, 0x30])
       = (Inl (I2cNackError ''NACK from slave''),
          extend (configured ack_then_nack 128 384)
            [WriteData (write_cmd K0 0x10), ReadData 1 4, WriteData (write_cmd K0 0x20), ReadData 1 4])"
  using do_write_bytes_first_refusal [of "configured ack_then_nack 128 384" ack_then_nack 1 "[0x10, 0x20, 0x30]" K0]
  by (simp add: configured_def I2cController_init_def accepted_def ack_reply_def sent_def write_unit_def
        ack_then_nack_def is_ack_def is_nack_def)

section \<open>Retries\<close>

lemma nacks_extend: "nacks_every_prolog K c \<Longrightarrow> nacks_every_prolog K (extend c t)"
  by (auto simp: nacks_every_prolog_def extend_def)

lemma nacks_prolog:
  "nacks_every_prolog K c \<Longrightarrow>
   do_prolog K c i = (Inl (I2cNackError ''NACK from slave''),
                      extend c [WriteData (prolog_cmd K i), ReadData 1 4])"
proof -
  assume n: "nacks_every_prolog K c"
  then obtain f where f: "ftdi c = Some f" "\<forall>h. behaviour f h \<noteq> Fault"
     "\<forall>h i. is_nack (behaviour f (h @ [WriteData (prolog_cmd K i), ReadData 1 4]))"
    by (auto simp: nacks_every_prolog_def)
  from f(3) have "is_nack (behaviour f (calls f @ [WriteData (prolog_cmd K i), ReadData 1 4]))"
    by blast
  then show ?thesis using f(1,2)
    by (simp add: do_prolog_eq ack_check_nack)
qed

lemma nacks_epilog:
  "nacks_every_prolog K c \<Longrightarrow>
   do_epilog K c = (Inr (), extend c [WriteData (stop K), ReadData 1 1])"
  by (auto simp: nacks_every_prolog_def do_epilog_eq)

lemma nacks_finally:
  "nacks_every_prolog K c \<Longrightarrow>
   finally_epilog K (r, c) = (r, extend c [WriteData (stop K), ReadData 1 1])"
  by (simp add: finally_epilog_def nacks_epilog)

lemma read_loop_nacked:
  "nacks_every_prolog K c \<Longrightarrow>
   read_loop K c i n r =
     (if r - 1 = 0
      then Some (Inl (I2cNackError ''NACK from slave''), extend c (nacked_attempt K i))
      else read_loop K (extend c (nacked_attempt K i)) i n (r - 1))"
  by (subst read_loop.simps)
     (simp add: read_try_def nacks_prolog nacks_finally nacks_epilog nacks_extend
                nacked_attempt_def)

lemma write_loop_nacked:
  "nacks_every_prolog K c \<Longrightarrow>
   write_loop K c i out r =
     (if r - 1 = 0
      then Some (Inl (I2cNackError ''NACK from slave''), extend c (nacked_attempt K i))
      else write_loop K (extend c (nacked_attempt K i)) i out (r - 1))"
  by (subst write_loop.simps)
     (simp add: write_try_def nacks_prolog nacks_finally nacks_epilog nacks_extend
                nacked_attempt_def)

lemma exchange_loop_nacked:
  "nacks_every_prolog K c \<Longrightarrow>
   exchange_loop K c i out n r =
     (if r - 1 = 0
      then Some (Inl (I2cNackError ''NACK from slave''), extend c (nacked_attempt K i))
      else exchange_loop K (extend c (nacked_attempt K i)) i out n (r - 1))"
  by (subst exchange_loop.simps)
     (simp add: exchange_try_def nacks_prolog nacks_finally nacks_epilog nacks_extend
                nacked_attempt_def)

lemma nacks_live: "nacks_every_prolog K c \<Longrightarrow> ftdi c \<noteq> None"
  by (auto simp: nacks_every_prolog_def)

lemma read_nacked:
  "nacks_every_prolog K c \<Longrightarrow> a \<le> 0x7f \<Longrightarrow> 1 \<le> n \<Longrightarrow>
   read K c a n = Some (Inl (I2cNackError ''NACK from slave''),
      extend c (concat (replicate 3 (nacked_attempt K (push_bit 1 a AND HIGH OR BIT0)))))"
  using nacks_live [of K c]
  by (simp add: read_def Let_def validate_address_def HIGHEST_I2C_ADDRESS_def RETRY_COUNT_def
        read_loop_nacked nacks_extend numeral_3_eq_3)

lemma write_nacked:
  "nacks_every_prolog K c \<Longrightarrow> a \<le> 0x7f \<Longrightarrow> payload_len out \<noteq> 0 \<Longrightarrow>
   write K c a out = Some (Inl (I2cNackError ''NACK from slave''),
      extend c (concat (replicate 3 (nacked_attempt K (push_bit 1 a AND HIGH)))))"
  using nacks_live [of K c]
  by (simp add: write_def Let_def validate_address_def HIGHEST_I2C_ADDRESS_def RETRY_COUNT_def
        write_loop_nacked nacks_extend numeral_3_eq_3)

lemma exchange_nacked:
  "nacks_every_prolog K c \<Longrightarrow> a \<le> 0x7f \<Longrightarrow> payload_len out \<noteq> 0 \<Longrightarrow> 1 \<le> n \<Longrightarrow> n \<le> 21844 \<Longrightarrow>
   exchange K c a out n = Some (Inl (I2cNackError ''NACK from slave''),
      extend c (concat (replicate 3 (nacked_attempt K (push_bit 1 a AND HIGH)))))"
  using nacks_live [of K c]
  by (simp add: exchange_def Let_def validate_address_def HIGHEST_I2C_ADDRESS_def RETRY_COUNT_def
        exchange_loop_nacked nacks_extend numeral_3_eq_3 PAYLOAD_MAX_LENGTH_def)

lemma poll_nacked:
  "nacks_every_prolog K c \<Longrightarrow> a \<le> 0x7f \<Longrightarrow>
   poll K c a = (Inr False, extend c (nacked_attempt K (push_bit 1 a AND HIGH OR BIT0)))"
  using nacks_live [of K c]
  by (simp add: poll_def Let_def validate_address_def HIGHEST_I2C_ADDRESS_def
        nacks_prolog nacks_finally nacks_extend nacked_attempt_def)













section \<open>Slave handles\<close>

lemma get_port_keeps:
  "slaves c a = Some r \<Longrightarrow> slaves (snd (get_port c b)) a = Some r"
  by (auto simp: get_port_def split: sum.splits option.splits)

lemma get_port_ftdi: "ftdi (snd (get_port c b)) = ftdi c"
  by (simp add: get_port_def split: sum.splits option.splits)

lemma get_ports_keeps:
  "slaves c a = Some r \<Longrightarrow> slaves (get_ports c bs) a = Some r"
  unfolding get_ports_def
  by (induction bs arbitrary: c) (simp_all add: get_port_keeps)

lemma get_ports_ftdi: "ftdi (get_ports c bs) = ftdi c"
  unfolding get_ports_def
  by (induction bs arbitrary: c) (simp_all add: get_port_ftdi)

lemma get_port_cached:
  "ftdi c \<noteq> None \<Longrightarrow> a \<le> 0x7f \<Longrightarrow> slaves c a = Some r \<Longrightarrow> get_port c a = (Inr r, c)"
  by (simp add: get_port_def validate_address_def HIGHEST_I2C_ADDRESS_def)

lemma get_port_wf:
  assumes "wf_slaves c"
  shows "wf_slaves (snd (get_port c b))"
proof (cases "ftdi c = None \<or> validate_address b \<noteq> Inr () \<or> slaves c b \<noteq> None")
  case True
  then have "snd (get_port c b) = c"
    by (auto simp: get_port_def split: sum.splits option.splits)
  with assms show ?thesis by simp
next
  case False
  let ?c = "c\<lparr>slaves := (slaves c)(b \<mapsto> length (ports c)), ports := ports c @ [I2cPort_init b]\<rparr>"
  from False have s: "snd (get_port c b) = ?c"
    by (auto simp: get_port_def split: sum.splits)
  have "r < length (ports ?c) \<and> address (ports ?c ! r) = a" if h: "slaves ?c a = Some r" for a r
  proof (cases "a = b")
    case True
    with h have "r = length (ports c)" by simp
    then show ?thesis using True by (simp add: I2cPort_init_def)
  next
    case False
    with h have "slaves c a = Some r" by simp
    with assms have "r < length (ports c)" "address (ports c ! r) = a"
      by (auto simp: wf_slaves_def)
    then show ?thesis by (simp add: nth_append)
  qed
  then show ?thesis unfolding s wf_slaves_def by blast
qed

lemma get_ports_wf: "wf_slaves c \<Longrightarrow> wf_slaves (get_ports c bs)"
  unfolding get_ports_def
  by (induction bs arbitrary: c) (simp_all add: get_port_wf)

lemma get_port_store:
  "r < length (ports c) \<Longrightarrow>
   r < length (ports (snd (get_port c b))) \<and> ports (snd (get_port c b)) ! r = ports c ! r"
  by (auto simp: get_port_def nth_append split: sum.splits option.splits)

lemma get_ports_store:
  "r < length (ports c) \<Longrightarrow>
   r < length (ports (get_ports c bs)) \<and> ports (get_ports c bs) ! r = ports c ! r"
  unfolding get_ports_def
proof (induction bs arbitrary: c)
  case Nil
  then show ?case by simp
next
  case (Cons b bs)
  from get_port_store [OF Cons.prems, of b]
  have 1: "r < length (ports (snd (get_port c b)))"
    and 2: "ports (snd (get_port c b)) ! r = ports c ! r" by simp_all
  from Cons.IH [OF 1] 2 show ?case by simp
qed

text \<open>
  C6. On a controller that holds its device, \<^verbatim>\<open>get_port\<close> succeeds for every address
  from 0 to 0x7F and returns the reference that the dictionary of slaves then holds for
  that address: the one it held before, with the controller left as it is, or else the
  reference of a new port of that address, added to the store. Every later call for that
  address, whatever other ports were asked for in between, returns the same reference and
  leaves the controller as it is. When the dictionary is well formed, as it is after
  \<^verbatim>\<open>__init__\<close>, it stays so, the reference returned is a port of the store that carries
  the address, no other address has that reference, and the later calls leave that port
  in its place in the store. For an address above 0x7F \<^verbatim>\<open>get_port\<close> raises \<^verbatim>\<open>I2cIOError\<close>
  and the controller, with the calls its device has seen, is unchanged.
\<close>

theorem get_port_idempotent:
  "(ftdi c \<noteq> None \<and> 0 \<le> a \<and> a \<le> 0x7f \<longrightarrow>
      (\<exists>r c1. get_port c a = (Inr r, c1) \<and> slaves c1 a = Some r \<and> ftdi c1 = ftdi c
         \<and> (case slaves c a of
               Some r0 \<Rightarrow> r = r0 \<and> c1 = c
             | None \<Rightarrow> r = length (ports c)
                  \<and> c1 = c\<lparr>slaves := (slaves c)(a \<mapsto> r), ports := ports c @ [I2cPort_init a]\<rparr>)
         \<and> (\<forall>bs. get_port (get_ports c1 bs) a = (Inr r, get_ports c1 bs))
         \<and> (wf_slaves c \<longrightarrow>
               wf_slaves c1 \<and> r < length (ports c1) \<and> address (ports c1 ! r) = a
             \<and> (\<forall>b. slaves c1 b = Some r \<longrightarrow> b = a)
             \<and> (\<forall>bs. wf_slaves (get_ports c1 bs)
                     \<and> ports (get_ports c1 bs) ! r = ports c1 ! r))))
   \<and> wf_slaves (I2cController_init f0)
   \<and> (a > 0x7f \<longrightarrow> (\<exists>m. get_port c a = (Inl (I2cIOError m), c)))"
proof (intro conjI impI)
  assume live: "ftdi c \<noteq> None \<and> 0 \<le> a \<and> a \<le> 0x7f"
  obtain x c1 where g: "get_port c a = (x, c1)"
    by (cases "get_port c a")
  from live g obtain r where x: "x = Inr r" and sl: "slaves c1 a = Some r"
    by (auto simp: get_port_def validate_address_def HIGHEST_I2C_ADDRESS_def
             split: option.splits)
  have f1: "ftdi c1 = ftdi c"
    using get_port_ftdi [of c a] g by simp
  have cs: "case slaves c a of
               Some r0 \<Rightarrow> r = r0 \<and> c1 = c
             | None \<Rightarrow> r = length (ports c)
                  \<and> c1 = c\<lparr>slaves := (slaves c)(a \<mapsto> r), ports := ports c @ [I2cPort_init a]\<rparr>"
    using live g x
    by (auto simp: get_port_def validate_address_def HIGHEST_I2C_ADDRESS_def
             split: option.splits)
  have st: "\<forall>bs. get_port (get_ports c1 bs) a = (Inr r, get_ports c1 bs)"
    using live f1 sl by (intro allI get_port_cached) (simp_all add: get_ports_ftdi get_ports_keeps)
  have wf: "wf_slaves c1 \<and> r < length (ports c1) \<and> address (ports c1 ! r) = a
             \<and> (\<forall>b. slaves c1 b = Some r \<longrightarrow> b = a)
             \<and> (\<forall>bs. wf_slaves (get_ports c1 bs)
                     \<and> ports (get_ports c1 bs) ! r = ports c1 ! r)" if w: "wf_slaves c"
  proof -
    have w1: "wf_slaves c1" using get_port_wf [OF w, of a] g by simp
    with sl have r: "r < length (ports c1)" and ad: "address (ports c1 ! r) = a"
      by (auto simp: wf_slaves_def)
    have "b = a" if "slaves c1 b = Some r" for b
      using w1 that ad by (auto simp: wf_slaves_def)
    with w1 r ad show ?thesis
      by (simp add: get_ports_wf get_ports_store)
  qed
  from g x sl f1 cs st wf
  show "\<exists>r c1. get_port c a = (Inr r, c1) \<and> slaves c1 a = Some r \<and> ftdi c1 = ftdi c
         \<and> (case slaves c a of
               Some r0 \<Rightarrow> r = r0 \<and> c1 = c
             | None \<Rightarrow> r = length (ports c)
                  \<and> c1 = c\<lparr>slaves := (slaves c)(a \<mapsto> r), ports := ports c @ [I2cPort_init a]\<rparr>)
         \<and> (\<forall>bs. get_port (get_ports c1 bs) a = (Inr r, get_ports c1 bs))
         \<and> (wf_slaves c \<longrightarrow>
               wf_slaves c1 \<and> r < length (ports c1) \<and> address (ports c1 ! r) = a
             \<and> (\<forall>b. slaves c1 b = Some r \<longrightarrow> b = a)
             \<and> (\<forall>bs. wf_slaves (get_ports c1 bs)
                     \<and> ports (get_ports c1 bs) ! r = ports c1 ! r))"
    by blast
next
  show "wf_slaves (I2cController_init f0)"
    by (simp add: wf_slaves_def I2cController_init_def)
next
  assume "a > 0x7f"
  then show "\<exists>m. get_port c a = (Inl (I2cIOError m), c)"
    by (simp add: get_port_def validate_address_def HIGHEST_I2C_ADDRESS_def)
qed

lemma one_port_wf: "wf_slaves one_port"
  by (simp add: wf_slaves_def one_port_def I2cPort_init_def)

theorem get_port_idempotent_witness:
  "get_port (configured acking 128 384) 0x21 = (Inr 0, one_port)
   \<and> get_port one_port 0x21 = (Inr 0, one_port)
   \<and> get_port one_port 0x22
       = (Inr 1, one_port\<lparr>slaves := [0x21 \<mapsto> 0, 0x22 \<mapsto> 1],
                            ports := [I2cPort_init 0x21, I2cPort_init 0x22]\<rparr>)
   \<and> (\<forall>bs. get_port (get_ports one_port bs) 0x21 = (Inr 0, get_ports one_port bs)
          \<and> ports (get_ports one_port bs) ! 0 = I2cPort_init 0x21)
   \<and> (\<exists>m. get_port (configured acking 128 384) 0x80
             = (Inl (I2cIOError m), configured acking 128 384))"
proof -
  have e: "get_port (configured acking 128 384) 0x21 = (Inr 0, one_port)"
          "get_port one_port 0x21 = (Inr 0, one_port)"
          "get_port one_port 0x22
             = (Inr 1, one_port\<lparr>slaves := [0x21 \<mapsto> 0, 0x22 \<mapsto> 1],
                                  ports := [I2cPort_init 0x21, I2cPort_init 0x22]\<rparr>)"
    by (simp_all add: get_port_def one_port_def configured_def I2cController_init_def
          validate_address_def HIGHEST_I2C_ADDRESS_def)
  have p: "ports one_port = [I2cPort_init 0x21]"
    by (simp add: one_port_def)
  have "ftdi one_port \<noteq> None \<and> (0::int) \<le> 0x21 \<and> (0x21::int) \<le> 0x7f"
    by (simp add: one_port_def configured_def I2cController_init_def)
  from get_port_idempotent [of one_port "0x21", THEN conjunct1, rule_format, OF this]
  obtain r c1 where g: "get_port one_port 0x21 = (Inr r, c1)"
    and st: "\<forall>bs. get_port (get_ports c1 bs) 0x21 = (Inr r, get_ports c1 bs)"
    and w: "wf_slaves one_port \<longrightarrow> (\<forall>bs. ports (get_ports c1 bs) ! r = ports c1 ! r)"
    by blast
  from g e(2) have r: "r = 0" "c1 = one_port" by simp_all
  from w one_port_wf r p have "\<forall>bs. ports (get_ports one_port bs) ! 0 = I2cPort_init 0x21"
    by simp
  moreover have "\<exists>m. get_port (configured acking 128 384) 0x80
             = (Inl (I2cIOError m), configured acking 128 384)"
    using get_port_idempotent [of "configured acking 128 384" "0x80"] by simp
  ultimately show ?thesis using e st r by simp
qed

text \<open>
  C7. On a controller as \<^verbatim>\<open>__init__\<close> leaves it, with \<^verbatim>\<open>configure\<close> never called,
  \<^verbatim>\<open>get_port(0x21)\<close> does not raise: it allocates the first port and returns it. The test
  \<^verbatim>\<open>not self._ftdi\<close> cannot hold before \<^verbatim>\<open>terminate\<close>, since \<^verbatim>\<open>__init__\<close> stores a device
  object there.
\<close>

theorem get_port_unconfigured:
  "get_port (I2cController_init f0) 0x21 =
     (Inr 0, (I2cController_init f0)\<lparr>slaves := [0x21 \<mapsto> 0], ports := [I2cPort_init 0x21]\<rparr>)"
  by (simp add: get_port_def I2cController_init_def validate_address_def
                HIGHEST_I2C_ADDRESS_def)

lemma FORMATS_eq:
  "FORMATS w = (if w = 4 then Some CHR ''I'' else if w = 2 then Some CHR ''H''
                else if w = 1 then Some CHR ''B'' else None)"
  by (simp add: FORMATS_def scalc_def)

text \<open>
  C9. After \<^verbatim>\<open>configure_register(bigendian=True, width=2)\<close>, \<^verbatim>\<open>write_to(0x0102, b'\xAA')\<close>
  is the controller's \<^verbatim>\<open>write\<close> at the port's address with the payload 01 02 AA; after
  \<^verbatim>\<open>configure_register(bigendian=False, width=2)\<close> the payload is 02 01 AA. For a width
  other than 1, 2 and 4, \<^verbatim>\<open>configure_register\<close> raises \<^verbatim>\<open>I2cIOError\<close> and the port keeps
  its format and byte order.
\<close>

theorem write_to_register_prefix:
  "write_to K c (snd (configure_register p True 2)) 0x0102 [0xAA]
     = write K c (address p + shift p) (Bytes [0x01, 0x02, 0xAA])
   \<and> write_to K c (snd (configure_register p False 2)) 0x0102 [0xAA]
     = write K c (address p + shift p) (Bytes [0x02, 0x01, 0xAA])
   \<and> fst (configure_register p True 2) = Inr ()
   \<and> fst (configure_register p False 2) = Inr ()
   \<and> (width \<notin> {1, 2, 4} \<longrightarrow>
        configure_register p b width = (Inl (I2cIOError ''Unsupported integer width''), p))"
  by (simp add: configure_register_def FORMATS_eq write_to_def make_buffer_def spack_def
                scalc_def numeral_2_eq_2)

theorem write_to_register_prefix_witness:
  "write_to K0 (configured acking 128 384)
       (snd (configure_register (I2cPort_init 0x21) True 2)) 0x0102 [0xAA]
     = write K0 (configured acking 128 384) 0x21 (Bytes [0x01, 0x02, 0xAA])
   \<and> write_to K0 (configured acking 128 384)
       (snd (configure_register (I2cPort_init 0x21) False 2)) 0x0102 [0xAA]
     = write K0 (configured acking 128 384) 0x21 (Bytes [0x02, 0x01, 0xAA])
   \<and> (3::int) \<notin> {1, 2, 4}
   \<and> configure_register (I2cPort_init 0x21) True 3
     = (Inl (I2cIOError ''Unsupported integer width''), I2cPort_init 0x21)"
  using write_to_register_prefix [of K0 "configured acking 128 384" "I2cPort_init 0x21" 3 True]
  by (simp add: I2cPort_init_def)

section \<open>Chunk size\<close>

lemma length_read_last: "length (read_last K) = 9"
  by (simp add: read_last_def read_byte_def nack_def clock_low_data_high_def)

lemma length_read_not_last: "length (read_not_last K) = 9"
  by (simp add: read_not_last_def read_byte_def ack_def clock_low_data_high_def)

text \<open>
  C4, as stated: the chunk size is the minimum of the receive capacity less 2 and of the
  whole send capacity divided by the length of a command unit. With a send capacity of
  18 and a receive capacity of 16 that would be 2; the code computes 1.
\<close>

theorem chunk_size_full_capacity_counterexample:
  "chunk_size K0 (configured acking 18 16)
     \<noteq> min (rx_size (configured acking 18 16) - 2)
           (tx_size (configured acking 18 16) div int (length (read_last K0)))"
  by (simp add: chunk_size_def Let_def length_read_last configured_def I2cController_init_def)

text \<open>
  C4, amended: the chunk size is the minimum of the receive capacity less 2 and of the
  send capacity less 1, the byte kept for the last immediate marker, divided by the
  length of a command unit; a unit, with ack or with nack, is 9 bytes long.
\<close>

theorem chunk_size_reserves_one_byte:
  "chunk_size K c = min (rx_size c - 2) ((tx_size c - 1) div int (length (read_last K)))
   \<and> length (read_last K) = 9 \<and> length (read_not_last K) = 9"
  by (simp add: chunk_size_def Let_def length_read_last length_read_not_last min.commute)

section \<open>The epilog\<close>

lemma snd_write_data: "snd (write_data c cmd) = extend c [WriteData cmd]"
  by (cases "ftdi c") (simp_all add: write_data_eq, simp add: write_data_def extend_def)

lemma snd_read_data_bytes: "snd (read_data_bytes c n a) = extend c [ReadData n a]"
  by (cases "ftdi c") (simp_all add: read_data_bytes_eq, simp add: read_data_bytes_def extend_def)




lemma length_write_cmd: "length (write_cmd K b) = 10"
  by (simp add: write_cmd_def write_byte_def clock_low_data_high_def read_bit_def immediate_def)




lemma hd_read_cmd:
  "hd (concat (replicate k (read_not_last K)) @ read_last K) = READ_BYTES_PVE_MSB K"
  by (cases k) (simp_all add: read_not_last_def read_last_def read_byte_def)

lemma read_cmd_nonempty: "concat (replicate k (read_not_last K)) @ read_last K \<noteq> []"
  by (simp add: read_last_def read_byte_def)

lemma read_cmds_simps [simp]:
  "read_cmds K []"
  "read_cmds K (ReadData n a # t) = read_cmds K t"
  "read_cmds K (WriteData b # t) = (b \<noteq> [] \<and> hd b = READ_BYTES_PVE_MSB K \<and> read_cmds K t)"
  "read_cmds K (t @ u) = (read_cmds K t \<and> read_cmds K u)"
  by (auto simp: read_cmds_def)

lemma body_calls_simps [simp]:
  "body_calls K js []"
  "body_calls K js (ReadData n a # t) = body_calls K js t"
  "body_calls K js (WriteData b # t) = (body_cmd K js b \<and> body_calls K js t)"
  "body_calls K js (t @ u) = (body_calls K js t \<and> body_calls K js u)"
  by (auto simp: body_calls_def)

lemma read_cmds_body: "read_cmds K t \<Longrightarrow> body_calls K js t"
  by (auto simp: read_cmds_def body_calls_def body_cmd_def)

lemma body_cmd_write: "body_cmd K js (write_cmd K b)"
  by (simp add: body_cmd_def length_write_cmd)

lemma body_cmd_prolog: "j \<in> set js \<Longrightarrow> body_cmd K js (prolog_cmd K j)"
  by (simp add: body_cmd_def)



lemma write_data_error: "write_data c cmd = (Inl e, c1) \<Longrightarrow> bus_error e"
  by (auto simp: write_data_def ftdi_write_data_def Let_def bus_error_def
           split: option.splits reply.splits)

lemma read_data_bytes_error: "read_data_bytes c n a = (Inl e, c1) \<Longrightarrow> bus_error e"
  by (auto simp: read_data_bytes_def ftdi_read_data_bytes_def Let_def bus_error_def
           split: option.splits reply.splits)

lemma do_prolog_error: "do_prolog K c i = (Inl e, c1) \<Longrightarrow> bus_error e"
  by (auto simp: do_prolog_def bus_error_def split: prod.splits sum.splits list.splits if_splits
           dest: write_data_error read_data_bytes_error)

lemma do_epilog_error: "do_epilog K c = (Inl e, c1) \<Longrightarrow> bus_error e"
  by (auto simp: do_epilog_def split: prod.splits sum.splits
           dest: write_data_error read_data_bytes_error)

lemma do_write_loop_error: "do_write_loop K c out = (Inl e, c1) \<Longrightarrow> bus_error e"
proof (induction out arbitrary: c)
  case Nil
  then show ?case by simp
next
  case (Cons b out)
  then show ?case
    by (auto simp: bus_error_def split: prod.splits sum.splits list.splits if_splits
             dest: write_data_error read_data_bytes_error)
qed

lemma do_write_error: "do_write K c out = (Inl e, c1) \<Longrightarrow> bus_error e"
  by (cases out) (auto simp: do_write_Bytes do_write_Ints bus_error_def dest: do_write_loop_error)

lemma do_prolog_trace:
  assumes "do_prolog K c i = (r, c1)"
  shows "\<exists>t. c1 = extend c (WriteData (prolog_cmd K i) # t) \<and> body_calls K js t"
proof (cases "ftdi c")
  case None
  with assms have "c1 = c" by (simp add: do_prolog_def write_data_def)
  moreover have "extend c (WriteData (prolog_cmd K i) # []) = c"
    using None by (simp add: extend_def)
  ultimately show ?thesis by (metis body_calls_simps(1))
next
  case (Some f)
  with assms have "c1 = extend c (WriteData (prolog_cmd K i) # [])
      \<or> c1 = extend c (WriteData (prolog_cmd K i) # [ReadData 1 4])"
    by (auto simp: do_prolog_eq split: if_splits)
  then show ?thesis
    by (metis body_calls_simps(1,2))
qed

lemma do_epilog_extends: "\<exists>t. snd (do_epilog K c) = extend c t"
proof -
  obtain r1 where w: "write_data c (stop K) = (r1, extend c [WriteData (stop K)])"
    using snd_write_data [of c "stop K"] by (cases "write_data c (stop K)") auto
  obtain r2 where rd: "read_data_bytes (extend c [WriteData (stop K)]) 1 1
        = (r2, extend c [WriteData (stop K), ReadData 1 1])"
    using snd_read_data_bytes [of "extend c [WriteData (stop K)]" 1 1]
    by (cases "read_data_bytes (extend c [WriteData (stop K)]) 1 1") auto
  have "snd (do_epilog K c) = extend c [WriteData (stop K)]
      \<or> snd (do_epilog K c) = extend c [WriteData (stop K), ReadData 1 1]"
    using w rd by (simp add: do_epilog_def split: sum.splits)
  then show ?thesis by blast
qed

lemma do_write_loop_trace:
  "do_write_loop K c out = (r, c1) \<Longrightarrow> \<exists>t. c1 = extend c t \<and> body_calls K js t"
proof (induction out arbitrary: c)
  case Nil
  then have "c1 = extend c []" by simp
  then show ?case using body_calls_simps(1) by blast
next
  case (Cons b out)
  obtain r1 where w: "write_data c (write_cmd K b) = (r1, extend c [WriteData (write_cmd K b)])"
    using snd_write_data [of c "write_cmd K b"] by (cases "write_data c (write_cmd K b)") auto
  obtain r2 where rd: "read_data_bytes (extend c [WriteData (write_cmd K b)]) 1 4
        = (r2, extend c [WriteData (write_cmd K b), ReadData 1 4])"
    using snd_read_data_bytes [of "extend c [WriteData (write_cmd K b)]" 1 4]
    by (cases "read_data_bytes (extend c [WriteData (write_cmd K b)]) 1 4") auto
  let ?u = "[WriteData (write_cmd K b), ReadData 1 4]"
  have sf: "body_calls K js ?u" "body_calls K js [WriteData (write_cmd K b)]"
    by (simp_all add: body_cmd_write)
  from Cons.prems w rd consider
      "c1 = extend c [WriteData (write_cmd K b)]"
    | "c1 = extend c ?u"
    | "do_write_loop K (extend c ?u) out = (r, c1)"
    by (auto split: sum.splits list.splits if_splits)
  then show ?case
  proof cases
    case 1 with sf show ?thesis by blast
  next
    case 2 with sf show ?thesis by blast
  next
    case 3
    from Cons.IH [OF 3] obtain t where "c1 = extend (extend c ?u) t" "body_calls K js t" by blast
    then have "c1 = extend c (?u @ t)" "body_calls K js (?u @ t)" using sf by simp_all
    then show ?thesis by blast
  qed
qed

lemma do_write_trace:
  assumes "do_write K c out = (r, c1)"
  shows "\<exists>t. c1 = extend c t \<and> body_calls K js t"
proof (cases out)
  case (Bytes bs)
  with assms have "do_write_loop K c bs = (r, c1)" by (simp add: do_write_Bytes)
  from do_write_loop_trace [OF this] show ?thesis .
next
  case (Ints xs)
  with assms have "c1 = extend c []" by (simp add: do_write_Ints)
  then show ?thesis using body_calls_simps(1) by blast
qed

lemma do_read_loop_cmds:
  assumes "do_read_loop K chunk lc c chunks last_cmd count = Some y"
  shows "(\<forall>b. last_cmd = Some b \<longrightarrow> b \<noteq> [] \<and> hd b = READ_BYTES_PVE_MSB K) \<longrightarrow>
   (\<exists>t. snd y = extend c t \<and> read_cmds K t) \<and> (\<forall>e. fst y = Inl e \<longrightarrow> bus_error e)"
proof (rule do_read_loop.raw_induct [where P = "\<lambda>K chunk lc c chunks last_cmd count y.
   (\<forall>b. last_cmd = Some b \<longrightarrow> b \<noteq> [] \<and> hd b = READ_BYTES_PVE_MSB K) \<longrightarrow>
   (\<exists>t. snd y = extend c t \<and> read_cmds K t) \<and> (\<forall>e. fst y = Inl e \<longrightarrow> bus_error e)",
   OF _ assms], goal_cases)
  case (1 rec K chunk lc c chunks last_cmd count y)
  show ?case
  proof (intro impI)
    assume inv: "\<forall>b. last_cmd = Some b \<longrightarrow> b \<noteq> [] \<and> hd b = READ_BYTES_PVE_MSB K"
    have here: "(\<exists>t. snd y = extend c t \<and> read_cmds K t) \<and> (\<forall>e. fst y = Inl e \<longrightarrow> bus_error e)"
      if "snd y = c" "\<forall>e. fst y = Inl e \<longrightarrow> bus_error e"
    proof -
      from that(1) have "snd y = extend c []" by simp
      with that(2) show ?thesis using read_cmds_simps(1) by blast
    qed
    show "(\<exists>t. snd y = extend c t \<and> read_cmds K t) \<and> (\<forall>e. fst y = Inl e \<longrightarrow> bus_error e)"
    proof (cases "count = 0")
      case True
      with 1(2) have "y = (Inr (concat chunks), c)" by auto
      then show ?thesis by (intro here) simp_all
    next
      case False
      define block_count where "block_count = min count chunk"
      define cmd where "cmd = (if lc \<noteq> block_count
                   then Some (concat (replicate (nat (block_count - 1)) (read_not_last K))
                              @ read_last K)
                   else last_cmd)"
      define cmd2 where "cmd2 = (if count - block_count \<le> 0
                 then (case cmd of None \<Rightarrow> Inl AttributeError
                                 | Some b \<Rightarrow> Inr (Some (b @ immediate K)))
                 else Inr cmd)"
      have cmd_inv: "\<forall>b. cmd = Some b \<longrightarrow> b \<noteq> [] \<and> hd b = READ_BYTES_PVE_MSB K"
      proof (cases "lc \<noteq> block_count")
        case True
        then show ?thesis
          using hd_read_cmd [of "nat (block_count - 1)" K]
                read_cmd_nonempty [of "nat (block_count - 1)" K]
          unfolding cmd_def by simp
      next
        case False
        then show ?thesis using inv unfolding cmd_def by simp
      qed
      have cmd2_inv: "\<forall>b. cmd2 = Inr (Some b) \<longrightarrow> b \<noteq> [] \<and> hd b = READ_BYTES_PVE_MSB K"
        using cmd_inv by (auto simp: cmd2_def split: if_splits option.splits)
      have cmd2_err: "\<forall>e. cmd2 = Inl e \<longrightarrow> e = AttributeError"
        by (auto simp: cmd2_def split: if_splits option.splits)
      have body:
        "(case cmd2 of
             Inl e \<Rightarrow> Some (Inl e, c)
           | Inr None \<Rightarrow> Some (Inl TypeError, c)
           | Inr (Some b) \<Rightarrow>
              (case write_data c b of
                 (Inl e, c1) \<Rightarrow> Some (Inl e, c1)
               | (Inr _, c1) \<Rightarrow>
                  (case read_data_bytes c1 block_count 4 of
                     (Inl e, c2) \<Rightarrow> Some (Inl e, c2)
                   | (Inr buf, c2) \<Rightarrow>
                      rec K chunk lc c2 (chunks @ [buf]) (Some b) (count - block_count)))) = Some y"
        using 1(2) False unfolding cmd2_def cmd_def block_count_def Let_def
        by (simp only: if_False)
      show ?thesis
      proof (cases cmd2)
        case (Inl e)
        with body cmd2_err have "y = (Inl AttributeError, c)" by auto
        then show ?thesis by (intro here) (simp_all add: bus_error_def)
      next
        case (Inr oc)
        show ?thesis
        proof (cases oc)
          case None
          with body Inr have "y = (Inl TypeError, c)" by auto
          then show ?thesis by (intro here) (simp_all add: bus_error_def)
        next
          case (Some b)
          with Inr cmd2_inv have b: "b \<noteq> []" "hd b = READ_BYTES_PVE_MSB K" by auto
          obtain r1 where w: "write_data c b = (r1, extend c [WriteData b])"
            using snd_write_data [of c b] by (cases "write_data c b") auto
          obtain r2 where rd: "read_data_bytes (extend c [WriteData b]) block_count 4
               = (r2, extend c [WriteData b, ReadData block_count 4])"
            using snd_read_data_bytes [of "extend c [WriteData b]" block_count 4]
            by (cases "read_data_bytes (extend c [WriteData b]) block_count 4") auto
          let ?u = "[WriteData b, ReadData block_count 4]"
          have sf: "read_cmds K ?u" "read_cmds K [WriteData b]" using b by simp_all
          from body Inr Some have body2:
            "(case write_data c b of
                 (Inl e, c1) \<Rightarrow> Some (Inl e, c1)
               | (Inr _, c1) \<Rightarrow>
                  (case read_data_bytes c1 block_count 4 of
                     (Inl e, c2) \<Rightarrow> Some (Inl e, c2)
                   | (Inr buf, c2) \<Rightarrow>
                      rec K chunk lc c2 (chunks @ [buf]) (Some b) (count - block_count))) = Some y"
            by simp
          show ?thesis
          proof (cases r1)
            case (Inl e)
            with body2 w have y: "y = (Inl e, extend c [WriteData b])" by auto
            from Inl w have "bus_error e" by (auto dest: write_data_error)
            with y sf show ?thesis by auto
          next
            case r1: (Inr u1)
            with body2 w have body3:
              "(case read_data_bytes (extend c [WriteData b]) block_count 4 of
                     (Inl e, c2) \<Rightarrow> Some (Inl e, c2)
                   | (Inr buf, c2) \<Rightarrow>
                      rec K chunk lc c2 (chunks @ [buf]) (Some b) (count - block_count)) = Some y"
              by simp
            show ?thesis
            proof (cases r2)
              case (Inl e)
              with body3 rd have y: "y = (Inl e, extend c ?u)" by auto
              from Inl rd have "bus_error e" by (auto dest: read_data_bytes_error)
              with y sf show ?thesis by auto
            next
              case (Inr buf)
              with body3 rd have
                "rec K chunk lc (extend c ?u) (chunks @ [buf]) (Some b) (count - block_count) = Some y"
                by simp
              from 1(1) [OF this] b obtain t where
                t: "snd y = extend (extend c ?u) t" "read_cmds K t"
                and er: "\<forall>e. fst y = Inl e \<longrightarrow> bus_error e"
                by auto
              from t have "snd y = extend c (?u @ t)" "read_cmds K (?u @ t)" using sf by simp_all
              with er show ?thesis by blast
            qed
          qed
        qed
      qed
    qed
  qed
qed

lemma do_read_cmds:
  "do_read K c n = Some (r, c1) \<Longrightarrow>
   (\<exists>t. c1 = extend c t \<and> read_cmds K t) \<and> (\<forall>e. r = Inl e \<longrightarrow> bus_error e)"
  using do_read_loop_cmds [of K "chunk_size K c" 0 c "[]" None n "(r, c1)"]
  by (simp add: do_read_def)

lemma read_try_trace:
  assumes "read_try K c i n = Some (r, c1)"
  shows "(\<exists>t. c1 = extend c (WriteData (prolog_cmd K i) # t) \<and> body_calls K js t)
         \<and> (\<forall>e. r = Inl e \<longrightarrow> bus_error e)"
proof -
  obtain rp cp where p: "do_prolog K c i = (rp, cp)" by (cases "do_prolog K c i")
  from do_prolog_trace [OF p] obtain t where
    t: "cp = extend c (WriteData (prolog_cmd K i) # t)" "body_calls K js t" by blast
  show ?thesis
  proof (cases rp)
    case (Inl e)
    with assms p have "c1 = cp" "r = Inl e" by (simp_all add: read_try_def)
    with t p Inl show ?thesis by (auto dest: do_prolog_error)
  next
    case (Inr u)
    with assms p have "do_read K cp n = Some (r, c1)" by (simp add: read_try_def)
    from do_read_cmds [OF this] obtain u where "c1 = extend cp u" "read_cmds K u"
      and er: "\<forall>e. r = Inl e \<longrightarrow> bus_error e" by blast
    with t have "c1 = extend c (WriteData (prolog_cmd K i) # (t @ u))" "body_calls K js (t @ u)"
      by (simp_all add: read_cmds_body)
    with er show ?thesis by blast
  qed
qed

lemma write_try_trace:
  assumes "write_try K c i out = (r, c1)"
  shows "(\<exists>t. c1 = extend c (WriteData (prolog_cmd K i) # t) \<and> body_calls K js t)
         \<and> (\<forall>e. r = Inl e \<longrightarrow> bus_error e)"
proof -
  obtain rp cp where p: "do_prolog K c i = (rp, cp)" by (cases "do_prolog K c i")
  from do_prolog_trace [OF p] obtain t where
    t: "cp = extend c (WriteData (prolog_cmd K i) # t)" "body_calls K js t" by blast
  show ?thesis
  proof (cases rp)
    case (Inl e)
    with assms p have "c1 = cp" "r = Inl e" by (simp_all add: write_try_def)
    with t p Inl show ?thesis by (auto dest: do_prolog_error)
  next
    case (Inr u)
    with assms p have w: "do_write K cp out = (r, c1)" by (simp add: write_try_def)
    from do_write_trace [OF w] obtain u where "c1 = extend cp u" "body_calls K js u" by blast
    with t have "c1 = extend c (WriteData (prolog_cmd K i) # (t @ u))" "body_calls K js (t @ u)"
      by simp_all
    moreover have "\<forall>e. r = Inl e \<longrightarrow> bus_error e"
      using w by (auto dest: do_write_error)
    ultimately show ?thesis by blast
  qed
qed

lemma exchange_try_eq:
  "exchange_try K c i out n =
     (case write_try K c i out of
        (Inl e, c2) \<Rightarrow> Some (Inl e, c2)
      | (Inr _, c2) \<Rightarrow> read_try K c2 (i OR BIT0) n)"
  by (simp add: exchange_try_def write_try_def read_try_def split: prod.splits sum.splits)

lemma exchange_try_trace:
  assumes "exchange_try K c i out n = Some (r, c1)" and js: "(i OR BIT0) \<in> set js"
  shows "(\<exists>t. c1 = extend c (WriteData (prolog_cmd K i) # t) \<and> body_calls K js t)
         \<and> (\<forall>e. r = Inl e \<longrightarrow> bus_error e)"
proof -
  obtain rw cw where w: "write_try K c i out = (rw, cw)" by (cases "write_try K c i out")
  from write_try_trace [OF w] obtain t where
    t: "cw = extend c (WriteData (prolog_cmd K i) # t)" "body_calls K js t"
    and er: "\<forall>e. rw = Inl e \<longrightarrow> bus_error e"
    by blast
  show ?thesis
  proof (cases rw)
    case (Inl e)
    with assms w have "c1 = cw" "r = Inl e" by (simp_all add: exchange_try_eq)
    with t er Inl show ?thesis by blast
  next
    case (Inr u)
    with assms w have "read_try K cw (i OR BIT0) n = Some (r, c1)"
      by (simp add: exchange_try_eq)
    from read_try_trace [OF this] obtain u where
      "c1 = extend cw (WriteData (prolog_cmd K (i OR BIT0)) # u)" "body_calls K js u"
      and er2: "\<forall>e. r = Inl e \<longrightarrow> bus_error e" by blast
    with t js have
      "c1 = extend c (WriteData (prolog_cmd K i) # (t @ WriteData (prolog_cmd K (i OR BIT0)) # u))"
      "body_calls K js (t @ WriteData (prolog_cmd K (i OR BIT0)) # u)"
      by (simp_all add: body_cmd_prolog)
    with er2 show ?thesis by blast
  qed
qed



lemma retry_first:
  fixes loop :: "I2cController \<Rightarrow> int \<Rightarrow> ((error + 'a) \<times> I2cController) option"
  assumes unfold: "\<And>c r. loop c r =
      (case body c of
         None \<Rightarrow> None
       | Some (rb, c1) \<Rightarrow>
          (case do_epilog K c1 of (re, c2) \<Rightarrow>
             if (\<exists>m. rb = Inl (I2cNackError m)) \<and> r - 1 \<noteq> 0 \<and> re = Inr ()
             then loop c2 (r - 1)
             else Some (case re of Inl e \<Rightarrow> Inl e | Inr _ \<Rightarrow> rb, c2)))"
    and body: "\<And>c rb c1. body c = Some (rb, c1) \<Longrightarrow>
                 (\<exists>bt. c1 = extend c (WriteData (prolog_cmd K i) # bt))
                 \<and> (\<forall>e. rb = Inl e \<longrightarrow> bus_error e)"
  shows "loop c (int k) = Some (r, c') \<Longrightarrow> 1 \<le> k \<Longrightarrow>
         (\<exists>t. c' = extend c (WriteData (prolog_cmd K i) # t)) \<and> (\<forall>e. r = Inl e \<longrightarrow> bus_error e)"
proof (induction k arbitrary: c)
  case 0
  then show ?case by simp
next
  case (Suc k)
  from Suc.prems(1) obtain rb c1 where b: "body c = Some (rb, c1)"
    by (subst (asm) unfold) (auto split: option.splits)
  from body [OF b] obtain bt where
    bt: "c1 = extend c (WriteData (prolog_cmd K i) # bt)"
    and eb: "\<forall>e. rb = Inl e \<longrightarrow> bus_error e" by blast
  obtain re c2 where e: "do_epilog K c1 = (re, c2)" by (cases "do_epilog K c1")
  from do_epilog_extends [of K c1] e obtain u where "c2 = extend c1 u" by auto
  with bt have c2: "c2 = extend c (WriteData (prolog_cmd K i) # (bt @ u))" by simp
  show ?case
  proof (cases "(\<exists>m. rb = Inl (I2cNackError m)) \<and> int (Suc k) - 1 \<noteq> 0 \<and> re = Inr ()")
    case True
    with Suc.prems(1) b e have l: "loop c2 (int k) = Some (r, c')"
      by (subst (asm) unfold) simp
    from True have k: "1 \<le> k" by simp
    from Suc.IH [OF l k] obtain t where "c' = extend c2 (WriteData (prolog_cmd K i) # t)"
      and er: "\<forall>e. r = Inl e \<longrightarrow> bus_error e" by blast
    with c2 have "c' = extend c (WriteData (prolog_cmd K i) # (bt @ u @ WriteData (prolog_cmd K i) # t))"
      by simp
    with er show ?thesis by blast
  next
    case False
    with Suc.prems(1) b e have r: "c' = c2" "r = (case re of Inl e \<Rightarrow> Inl e | Inr _ \<Rightarrow> rb)"
      by (subst (asm) unfold, auto split: if_splits)+
    have "\<forall>e. r = Inl e \<longrightarrow> bus_error e"
      using r(2) eb e by (auto split: sum.splits dest: do_epilog_error)
    with r(1) c2 show ?thesis by blast
  qed
qed

lemma read_loop_unfold:
  "read_loop K c i n r =
      (case read_try K c i n of
         None \<Rightarrow> None
       | Some (rb, c1) \<Rightarrow>
          (case do_epilog K c1 of (re, c2) \<Rightarrow>
             if (\<exists>m. rb = Inl (I2cNackError m)) \<and> r - 1 \<noteq> 0 \<and> re = Inr ()
             then read_loop K c2 i n (r - 1)
             else Some (case re of Inl e \<Rightarrow> Inl e | Inr _ \<Rightarrow> rb, c2)))"
  by (subst read_loop.simps)
     (auto simp: finally_epilog_def Let_def split: option.splits sum.splits error.splits prod.splits)

lemma write_loop_unfold:
  "write_loop K c i out r =
      (case Some (write_try K c i out) of
         None \<Rightarrow> None
       | Some (rb, c1) \<Rightarrow>
          (case do_epilog K c1 of (re, c2) \<Rightarrow>
             if (\<exists>m. rb = Inl (I2cNackError m)) \<and> r - 1 \<noteq> 0 \<and> re = Inr ()
             then write_loop K c2 i out (r - 1)
             else Some (case re of Inl e \<Rightarrow> Inl e | Inr _ \<Rightarrow> rb, c2)))"
  by (subst write_loop.simps)
     (auto simp: finally_epilog_def Let_def split: option.splits sum.splits error.splits prod.splits)

lemma exchange_loop_unfold:
  "exchange_loop K c i out n r =
      (case exchange_try K c i out n of
         None \<Rightarrow> None
       | Some (rb, c1) \<Rightarrow>
          (case do_epilog K c1 of (re, c2) \<Rightarrow>
             if (\<exists>m. rb = Inl (I2cNackError m)) \<and> r - 1 \<noteq> 0 \<and> re = Inr ()
             then exchange_loop K c2 i out n (r - 1)
             else Some (case re of Inl e \<Rightarrow> Inl e | Inr _ \<Rightarrow> rb, c2)))"
  by (subst exchange_loop.simps)
     (auto simp: finally_epilog_def Let_def split: option.splits sum.splits error.splits prod.splits)

lemma finally_epilog_snd: "snd (finally_epilog K (r, c1)) = snd (do_epilog K c1)"
  by (simp add: finally_epilog_def split: prod.splits sum.splits)

lemma prolog_cmd_address: "prolog_cmd K i ! 30 = word_of_int i"
  by (simp add: prolog_cmd_def idle_def start_def write_byte_def data_low_def
        clock_low_data_low_def numeral_eq_Suc)






lemmas eval_defs = configured_def I2cController_init_def acking_def
  validate_address_def HIGHEST_I2C_ADDRESS_def RETRY_COUNT_def PAYLOAD_MAX_LENGTH_def HIGH_def BIT0_def
  Let_def read_try_def write_try_def exchange_try_eq do_prolog_eq do_epilog_eq ack_check_def
  do_read_def chunk_size_def length_read_last write_data_eq read_data_bytes_eq ftdi_extend
  do_write_Bytes do_write_Ints do_write_loop_Cons_eq write_unit_def finally_epilog_def numeral_2_eq_2

lemma extend_fields [simp]:
  "tx_size (extend c t) = tx_size c" "rx_size (extend c t) = rx_size c"
  "slaves (extend c t) = slaves c" "ports (extend c t) = ports c"
  by (simp_all add: extend_def)


lemma do_read_loop_0:
  "do_read_loop K chunk lc c chunks last_cmd 0 = Some (Inr (concat chunks), c)"
  by (subst do_read_loop.simps) simp

lemma do_read_loop_unfold:
  "count \<noteq> 0 \<Longrightarrow>
   do_read_loop K chunk lc c chunks last_cmd count =
     (let block_count = min count chunk;
          count' = count - block_count;
          cmd = (if lc \<noteq> block_count
                 then Some (concat (replicate (nat (block_count - 1)) (read_not_last K))
                            @ read_last K)
                 else last_cmd)
      in case (if count' \<le> 0
               then (case cmd of None \<Rightarrow> Inl AttributeError
                               | Some b \<Rightarrow> Inr (Some (b @ immediate K)))
               else Inr cmd) of
           Inl e \<Rightarrow> Some (Inl e, c)
         | Inr None \<Rightarrow> Some (Inl TypeError, c)
         | Inr (Some b) \<Rightarrow>
            (case write_data c b of
               (Inl e, c1) \<Rightarrow> Some (Inl e, c1)
             | (Inr _, c1) \<Rightarrow>
                (case read_data_bytes c1 block_count 4 of
                   (Inl e, c2) \<Rightarrow> Some (Inl e, c2)
                 | (Inr buf, c2) \<Rightarrow>
                    do_read_loop K chunk lc c2 (chunks @ [buf]) (Some b) count')))"
  by (subst do_read_loop.simps) simp





section \<open>Payload write of a list\<close>

lemma e_write_bytes: "write K0 (configured acking 128 384) 0x21 (Bytes [0x12, 0x34])
     = Some (Inr (), extend (configured acking 128 384)
         [WriteData (prolog_cmd K0 0x42), ReadData 1 4,
          WriteData (write_cmd K0 0x12), ReadData 1 4,
          WriteData (write_cmd K0 0x34), ReadData 1 4,
          WriteData (stop K0), ReadData 1 1])"
  by (simp add: write_def write_loop_unfold eval_defs del: do_write_loop.simps(2))

lemma e_write_ints: "write K0 (configured acking 128 384) 0x21 (Ints [0x12, 0x34])
     = Some (Inl TypeError, extend (configured acking 128 384)
         [WriteData (prolog_cmd K0 0x42), ReadData 1 4, WriteData (stop K0), ReadData 1 1])"
  by (simp add: write_def write_loop_unfold eval_defs)

lemma e_exchange_ints: "exchange K0 (configured acking 128 384) 0x21 (Ints [0x04]) 1
     = Some (Inl TypeError, extend (configured acking 128 384)
         [WriteData (prolog_cmd K0 0x42), ReadData 1 4, WriteData (stop K0), ReadData 1 1])"
  by (simp add: exchange_def exchange_loop_unfold eval_defs)

text \<open>
  C8. \<^verbatim>\<open>_do_write\<close> sends no byte of a payload that is a list of integers: the argument
  \<^verbatim>\<open>hexlify(out)\<close> of its first statement, the debug message, raises \<^verbatim>\<open>TypeError\<close> before the
  loop over the bytes is entered, whatever the list holds and whatever the device would
  answer. So the example of the class docstring, \<^verbatim>\<open>i2c.write([0x12, 0x34])\<close> on the port of
  address 0x21, makes the prolog and the epilog and raises \<^verbatim>\<open>TypeError\<close> with neither 0x12
  nor 0x34 sent, on a device that acknowledges everything, and so does the call of the
  repository test, \<^verbatim>\<open>port.exchange([0x04], 1)\<close>. The same two bytes as a \<^verbatim>\<open>bytes\<close> object are
  sent in their order, each followed by the read of one reply byte.
\<close>

theorem do_write_list_payload_raises:
  "do_write K c (Ints xs) = (Inl TypeError, c)
   \<and> port_write K0 (configured acking 128 384) (I2cPort_init 0x21) (Ints [0x12, 0x34])
     = Some (Inl TypeError, extend (configured acking 128 384)
         [WriteData (prolog_cmd K0 0x42), ReadData 1 4, WriteData (stop K0), ReadData 1 1])
   \<and> port_exchange K0 (configured acking 128 384) (I2cPort_init 0x21) (Ints [0x04]) 1
     = Some (Inl TypeError, extend (configured acking 128 384)
         [WriteData (prolog_cmd K0 0x42), ReadData 1 4, WriteData (stop K0), ReadData 1 1])
   \<and> port_write K0 (configured acking 128 384) (I2cPort_init 0x21) (Bytes [0x12, 0x34])
     = Some (Inr (), extend (configured acking 128 384)
         [WriteData (prolog_cmd K0 0x42), ReadData 1 4,
          WriteData (write_cmd K0 0x12), ReadData 1 4,
          WriteData (write_cmd K0 0x34), ReadData 1 4,
          WriteData (stop K0), ReadData 1 1])"
  using e_write_bytes e_write_ints e_exchange_ints
  by (simp add: do_write_Ints port_write_def port_exchange_def I2cPort_init_def)

section \<open>Address encoding and the length of an exchange\<close>

lemma read_try_first:
  "read_try K c i n = Some (r, c1) \<Longrightarrow>
   (\<exists>t. c1 = extend c (WriteData (prolog_cmd K i) # t)) \<and> (\<forall>e. r = Inl e \<longrightarrow> bus_error e)"
  using read_try_trace [of K c i n r c1 "[]"] by blast

lemma write_try_first:
  "write_try K c i out = (r, c1) \<Longrightarrow>
   (\<exists>t. c1 = extend c (WriteData (prolog_cmd K i) # t)) \<and> (\<forall>e. r = Inl e \<longrightarrow> bus_error e)"
  using write_try_trace [of K c i out r c1 "[]"] by blast

lemma exchange_try_first:
  "exchange_try K c i out n = Some (r, c1) \<Longrightarrow>
   (\<exists>t. c1 = extend c (WriteData (prolog_cmd K i) # t)) \<and> (\<forall>e. r = Inl e \<longrightarrow> bus_error e)"
  using exchange_try_trace [of K c i out n r c1 "[i OR BIT0]"] by auto

lemma read_first:
  assumes "ftdi c \<noteq> None" "a \<le> 0x7f" "1 \<le> n" "read K c a n = Some (r, c')"
  shows "(\<exists>t. c' = extend c (WriteData (prolog_cmd K (push_bit 1 a AND HIGH OR BIT0)) # t))
         \<and> (\<forall>e. r = Inl e \<longrightarrow> bus_error e)"
proof -
  from assms have l: "read_loop K c (push_bit 1 a AND HIGH OR BIT0) n (int 3) = Some (r, c')"
    by (auto simp: read_def Let_def validate_address_def HIGHEST_I2C_ADDRESS_def RETRY_COUNT_def)
  show ?thesis
    using retry_first [where loop = "\<lambda>c r. read_loop K c (push_bit 1 a AND HIGH OR BIT0) n r"
         and body = "\<lambda>c. read_try K c (push_bit 1 a AND HIGH OR BIT0) n",
         OF read_loop_unfold read_try_first l]
    by simp
qed

lemma write_first:
  assumes "ftdi c \<noteq> None" "a \<le> 0x7f" "payload_len out \<noteq> 0" "write K c a out = Some (r, c')"
  shows "(\<exists>t. c' = extend c (WriteData (prolog_cmd K (push_bit 1 a AND HIGH)) # t))
         \<and> (\<forall>e. r = Inl e \<longrightarrow> bus_error e)"
proof -
  from assms have l: "write_loop K c (push_bit 1 a AND HIGH) out (int 3) = Some (r, c')"
    by (auto simp: write_def Let_def validate_address_def HIGHEST_I2C_ADDRESS_def RETRY_COUNT_def)
  have b: "\<And>c rb c1. Some (write_try K c (push_bit 1 a AND HIGH) out) = Some (rb, c1) \<Longrightarrow>
        (\<exists>bt. c1 = extend c (WriteData (prolog_cmd K (push_bit 1 a AND HIGH)) # bt))
        \<and> (\<forall>e. rb = Inl e \<longrightarrow> bus_error e)"
    using write_try_first by simp
  show ?thesis
    using retry_first [where loop = "\<lambda>c r. write_loop K c (push_bit 1 a AND HIGH) out r"
         and body = "\<lambda>c. Some (write_try K c (push_bit 1 a AND HIGH) out)",
         OF write_loop_unfold b l]
    by simp
qed

lemma exchange_loop_first:
  assumes "exchange_loop K c i out n 3 = Some (r, c')"
  shows "(\<exists>t. c' = extend c (WriteData (prolog_cmd K i) # t))
         \<and> (\<forall>e. r = Inl e \<longrightarrow> bus_error e)"
proof -
  from assms have l: "exchange_loop K c i out n (int 3) = Some (r, c')" by simp
  show ?thesis
    using retry_first [where loop = "\<lambda>c r. exchange_loop K c i out n r"
         and body = "\<lambda>c. exchange_try K c i out n",
         OF exchange_loop_unfold exchange_try_first l]
    by simp
qed

lemma poll_first:
  assumes a: "a \<le> 0x7f" and f: "ftdi c \<noteq> None" and p: "poll K c a = (rp, cp)"
  shows "\<exists>t. cp = extend c (WriteData (prolog_cmd K (push_bit 1 a AND HIGH OR BIT0)) # t)"
proof -
  let ?i = "push_bit 1 a AND HIGH OR BIT0"
  obtain r0 c1 where d: "do_prolog K c ?i = (r0, c1)" by (cases "do_prolog K c ?i")
  from do_prolog_trace [OF d] obtain bt where
    bt: "c1 = extend c (WriteData (prolog_cmd K ?i) # bt)" by blast
  have "snd (poll K c a) = snd (do_epilog K c1)"
    using f a d
    by (auto simp: poll_def Let_def validate_address_def HIGHEST_I2C_ADDRESS_def
                  finally_epilog_snd split: sum.splits error.splits)
  with p do_epilog_extends [of K c1] obtain u where "cp = extend c1 u" by auto
  with bt have "cp = extend c (WriteData (prolog_cmd K ?i) # (bt @ u))" by simp
  then show ?thesis by blast
qed

lemma threshold_real:
  "(real_of_int n > real_of_int PAYLOAD_MAX_LENGTH / 3 - 1) = (21844 < n)"
  unfolding PAYLOAD_MAX_LENGTH_def by (simp add: field_simps) linarith

lemma address_byte_range: "0 \<le> push_bit 1 a AND HIGH \<and> push_bit 1 a AND HIGH \<le> 0xff"
  unfolding HIGH_def by (simp add: AND_upper2)

text \<open>
  C10. Only the upper bound of an address is checked. For every integer address up to
  0x7F, negative ones included: \<^verbatim>\<open>validate_address\<close> accepts it, \<^verbatim>\<open>get_port\<close> returns a
  port, \<^verbatim>\<open>shift_address\<close> accepts an offset that leads to it, and every outcome of
  \<^verbatim>\<open>read\<close>, \<^verbatim>\<open>write\<close>, \<^verbatim>\<open>exchange\<close> and \<^verbatim>\<open>poll\<close> on otherwise valid arguments comes after the
  prolog command was handed to the device: the operation is its retry loop, entered
  with the encoded address. Byte 30 of that command is the address byte,
  \<^verbatim>\<open>(address << 1) & 0xFF\<close>, with bit 0 set for \<^verbatim>\<open>read\<close> and \<^verbatim>\<open>poll\<close>; it lies between 0 and
  0xFF.
\<close>

theorem negative_address_accepted:
  assumes a: "a \<le> 0x7f"
  shows "validate_address a = Inr ()
     \<and> (ftdi c \<noteq> None \<longrightarrow> (\<exists>r c1. get_port c a = (Inr r, c1)))
     \<and> (address p + offset = a \<longrightarrow> shift_address p offset = (Inr (), p\<lparr>shift := offset\<rparr>))
     \<and> (ftdi c \<noteq> None \<and> 1 \<le> n \<and> read K c a n = Some (r, c') \<longrightarrow>
          (\<exists>t. c' = extend c (WriteData (prolog_cmd K (push_bit 1 a AND HIGH OR BIT0)) # t)))
     \<and> (ftdi c \<noteq> None \<and> payload_len out \<noteq> 0 \<and> write K c a out = Some (rw, cw) \<longrightarrow>
          (\<exists>t. cw = extend c (WriteData (prolog_cmd K (push_bit 1 a AND HIGH)) # t)))
     \<and> (ftdi c \<noteq> None \<and> payload_len out \<noteq> 0 \<and> 1 \<le> n \<and> n \<le> 21844
          \<and> exchange K c a out n = Some (rx, cx) \<longrightarrow>
          (\<exists>t. cx = extend c (WriteData (prolog_cmd K (push_bit 1 a AND HIGH)) # t)))
     \<and> (ftdi c \<noteq> None \<and> poll K c a = (rp, cp) \<longrightarrow>
          (\<exists>t. cp = extend c (WriteData (prolog_cmd K (push_bit 1 a AND HIGH OR BIT0)) # t)))
     \<and> (ftdi c \<noteq> None \<and> 1 \<le> n \<longrightarrow>
          read K c a n = read_loop K c (push_bit 1 a AND HIGH OR BIT0) n RETRY_COUNT)
     \<and> (ftdi c \<noteq> None \<and> payload_len out \<noteq> 0 \<longrightarrow>
          write K c a out = write_loop K c (push_bit 1 a AND HIGH) out RETRY_COUNT)
     \<and> (ftdi c \<noteq> None \<and> payload_len out \<noteq> 0 \<and> 1 \<le> n \<and> n \<le> 21844 \<longrightarrow>
          exchange K c a out n = exchange_loop K c (push_bit 1 a AND HIGH) out n RETRY_COUNT)
     \<and> prolog_cmd K (push_bit 1 a AND HIGH) ! 30 = word_of_int (push_bit 1 a AND HIGH)
     \<and> prolog_cmd K (push_bit 1 a AND HIGH OR BIT0) ! 30
         = word_of_int (push_bit 1 a AND HIGH OR BIT0)
     \<and> 0 \<le> push_bit 1 a AND HIGH \<and> push_bit 1 a AND HIGH \<le> 0xff"
proof (intro conjI impI)
  show "validate_address a = Inr ()"
    using a by (simp add: validate_address_def HIGHEST_I2C_ADDRESS_def)
  show "\<exists>r c1. get_port c a = (Inr r, c1)" if "ftdi c \<noteq> None"
    using a that
    by (auto simp: get_port_def validate_address_def HIGHEST_I2C_ADDRESS_def split: option.splits)
  show "shift_address p offset = (Inr (), p\<lparr>shift := offset\<rparr>)" if "address p + offset = a"
    using a that by (simp add: shift_address_def validate_address_def HIGHEST_I2C_ADDRESS_def)
  show "\<exists>t. c' = extend c (WriteData (prolog_cmd K (push_bit 1 a AND HIGH OR BIT0)) # t)"
    if "ftdi c \<noteq> None \<and> 1 \<le> n \<and> read K c a n = Some (r, c')"
    using read_first [of c a n K r c'] a that by blast
  show "\<exists>t. cw = extend c (WriteData (prolog_cmd K (push_bit 1 a AND HIGH)) # t)"
    if "ftdi c \<noteq> None \<and> payload_len out \<noteq> 0 \<and> write K c a out = Some (rw, cw)"
    using write_first [of c a out K rw cw] a that by blast
  show "\<exists>t. cx = extend c (WriteData (prolog_cmd K (push_bit 1 a AND HIGH)) # t)"
    if h: "ftdi c \<noteq> None \<and> payload_len out \<noteq> 0 \<and> 1 \<le> n \<and> n \<le> 21844
          \<and> exchange K c a out n = Some (rx, cx)"
  proof -
    from h a have "exchange_loop K c (push_bit 1 a AND HIGH) out n 3 = Some (rx, cx)"
      by (auto simp: exchange_def Let_def validate_address_def HIGHEST_I2C_ADDRESS_def
                     RETRY_COUNT_def PAYLOAD_MAX_LENGTH_def)
    from exchange_loop_first [OF this] show ?thesis by blast
  qed
  show "\<exists>t. cp = extend c (WriteData (prolog_cmd K (push_bit 1 a AND HIGH OR BIT0)) # t)"
    if "ftdi c \<noteq> None \<and> poll K c a = (rp, cp)"
    using poll_first [of a c K rp cp] a that by blast
  show "read K c a n = read_loop K c (push_bit 1 a AND HIGH OR BIT0) n RETRY_COUNT"
    if "ftdi c \<noteq> None \<and> 1 \<le> n"
    using a that
    by (auto simp: read_def Let_def validate_address_def HIGHEST_I2C_ADDRESS_def)
  show "write K c a out = write_loop K c (push_bit 1 a AND HIGH) out RETRY_COUNT"
    if "ftdi c \<noteq> None \<and> payload_len out \<noteq> 0"
    using a that
    by (auto simp: write_def Let_def validate_address_def HIGHEST_I2C_ADDRESS_def)
  show "exchange K c a out n = exchange_loop K c (push_bit 1 a AND HIGH) out n RETRY_COUNT"
    if "ftdi c \<noteq> None \<and> payload_len out \<noteq> 0 \<and> 1 \<le> n \<and> n \<le> 21844"
    using a that
    by (auto simp: exchange_def Let_def validate_address_def HIGHEST_I2C_ADDRESS_def
                   PAYLOAD_MAX_LENGTH_def)
  show "prolog_cmd K (push_bit 1 a AND HIGH) ! 30 = word_of_int (push_bit 1 a AND HIGH)"
    by (rule prolog_cmd_address)
  show "prolog_cmd K (push_bit 1 a AND HIGH OR BIT0) ! 30
         = word_of_int (push_bit 1 a AND HIGH OR BIT0)"
    by (rule prolog_cmd_address)
  show "0 \<le> push_bit 1 a AND HIGH" "push_bit 1 a AND HIGH \<le> 0xff"
    using address_byte_range [of a] by simp_all
qed

theorem negative_address_accepted_witness:
  "(- 1 :: int) \<le> 0x7f \<and> validate_address (- 1) = Inr ()
   \<and> ftdi (configured nacking 128 384) \<noteq> None
   \<and> (\<exists>r c1. get_port (configured nacking 128 384) (- 1) = (Inr r, c1))
   \<and> address (I2cPort_init 3) + (- 4) = - 1
   \<and> shift_address (I2cPort_init 3) (- 4) = (Inr (), (I2cPort_init 3)\<lparr>shift := - 4\<rparr>)
   \<and> read K0 (configured nacking 128 384) (- 1) 2
       = Some (Inl (I2cNackError ''NACK from slave''),
               extend (configured nacking 128 384) (concat (replicate 3 (nacked_attempt K0 0xff))))
   \<and> (\<exists>t. extend (configured nacking 128 384) (concat (replicate 3 (nacked_attempt K0 0xff)))
           = extend (configured nacking 128 384) (WriteData (prolog_cmd K0 0xff) # t))
   \<and> write K0 (configured nacking 128 384) (- 1) (Bytes [7])
       = Some (Inl (I2cNackError ''NACK from slave''),
               extend (configured nacking 128 384) (concat (replicate 3 (nacked_attempt K0 0xfe))))
   \<and> (\<exists>t. extend (configured nacking 128 384) (concat (replicate 3 (nacked_attempt K0 0xfe)))
           = extend (configured nacking 128 384) (WriteData (prolog_cmd K0 0xfe) # t))
   \<and> exchange K0 (configured nacking 128 384) (- 1) (Bytes [7]) 2
       = Some (Inl (I2cNackError ''NACK from slave''),
               extend (configured nacking 128 384) (concat (replicate 3 (nacked_attempt K0 0xfe))))
   \<and> poll K0 (configured nacking 128 384) (- 1)
       = (Inr False, extend (configured nacking 128 384) (nacked_attempt K0 0xff))
   \<and> (\<exists>t. extend (configured nacking 128 384) (nacked_attempt K0 0xff)
           = extend (configured nacking 128 384) (WriteData (prolog_cmd K0 0xff) # t))
   \<and> prolog_cmd K0 0xfe ! 30 = 0xfe \<and> prolog_cmd K0 0xff ! 30 = 0xff"
proof -
  let ?c = "configured nacking 128 384"
  have n: "nacks_every_prolog K0 ?c"
    by (simp add: nacks_every_prolog_def configured_def I2cController_init_def nacking_def
                  is_nack_def)
  have e: "read K0 ?c (- 1) 2 = Some (Inl (I2cNackError ''NACK from slave''),
               extend ?c (concat (replicate 3 (nacked_attempt K0 0xff))))"
     "write K0 ?c (- 1) (Bytes [7]) = Some (Inl (I2cNackError ''NACK from slave''),
               extend ?c (concat (replicate 3 (nacked_attempt K0 0xfe))))"
     "exchange K0 ?c (- 1) (Bytes [7]) 2 = Some (Inl (I2cNackError ''NACK from slave''),
               extend ?c (concat (replicate 3 (nacked_attempt K0 0xfe))))"
     "poll K0 ?c (- 1) = (Inr False, extend ?c (nacked_attempt K0 0xff))"
    using read_nacked [OF n, of "- 1" 2] write_nacked [OF n, of "- 1" "Bytes [7]"]
          exchange_nacked [OF n, of "- 1" "Bytes [7]" 2] poll_nacked [OF n, of "- 1"]
    by (simp_all add: HIGH_def BIT0_def)
  have l: "ftdi ?c \<noteq> None" by (simp add: configured_def I2cController_init_def)
  note t = negative_address_accepted [where a = "- 1" and c = ?c and p = "I2cPort_init 3"
      and offset = "- 4" and n = 2 and out = "Bytes [7]" and K = K0]
  show ?thesis
    using l e
      t [where r = "Inl (I2cNackError ''NACK from slave'')"
         and c' = "extend ?c (concat (replicate 3 (nacked_attempt K0 0xff)))"
         and rw = "Inl (I2cNackError ''NACK from slave'')"
         and cw = "extend ?c (concat (replicate 3 (nacked_attempt K0 0xfe)))"
         and rx = "Inl (I2cNackError ''NACK from slave'')"
         and cx = "extend ?c (concat (replicate 3 (nacked_attempt K0 0xfe)))"
         and rp = "Inr False"
         and cp = "extend ?c (nacked_attempt K0 0xff)"]
    by (simp add: I2cPort_init_def HIGH_def BIT0_def)
qed

lemma exchange_validation:
  "ftdi c = None \<or> 0x7f < a \<or> payload_len out = 0 \<or> n < 1 \<or> 21844 < n \<Longrightarrow>
   \<exists>m. exchange K c a out n = Some (Inl (I2cIOError m), c)"
  by (auto simp: exchange_def validate_address_def HIGHEST_I2C_ADDRESS_def threshold_real)

text \<open>
  C5. \<^verbatim>\<open>exchange\<close> raises \<^verbatim>\<open>I2cIOError('Input payload is too large')\<close> exactly when the
  controller holds its device, the address is at most 0x7F, the payload is not empty and
  the read length is above 21844; the controller is then unchanged, so the device has
  seen no call. The same holds for every argument check of \<^verbatim>\<open>exchange\<close>: it raises
  \<^verbatim>\<open>I2cIOError\<close> and leaves the controller unchanged. The test of the code,
  \<^verbatim>\<open>readlen > PAYLOAD_MAX_LENGTH/3-1\<close>, holds exactly for the read lengths above 21844,
  with the quotient taken in the reals as well as rounded down.
\<close>

theorem exchange_payload_too_large:
  "(exchange K c a out n = Some (Inl (I2cIOError ''Input payload is too large''), c')
      \<longleftrightarrow> ftdi c \<noteq> None \<and> a \<le> 0x7f \<and> payload_len out \<noteq> 0 \<and> 21844 < n \<and> c' = c)
   \<and> (ftdi c = None \<or> 0x7f < a \<or> payload_len out = 0 \<or> n < 1 \<or> 21844 < n \<longrightarrow>
        (\<exists>m. exchange K c a out n = Some (Inl (I2cIOError m), c)))
   \<and> (real_of_int n > real_of_int PAYLOAD_MAX_LENGTH / 3 - 1 \<longleftrightarrow> 21844 < n)
   \<and> PAYLOAD_MAX_LENGTH div 3 - 1 = 21844"
proof (intro conjI impI)
  show "PAYLOAD_MAX_LENGTH div 3 - 1 = 21844" by (simp add: PAYLOAD_MAX_LENGTH_def)
  show "(real_of_int n > real_of_int PAYLOAD_MAX_LENGTH / 3 - 1) = (21844 < n)"
    by (rule threshold_real)
  show "\<exists>m. exchange K c a out n = Some (Inl (I2cIOError m), c)"
    if "ftdi c = None \<or> 0x7f < a \<or> payload_len out = 0 \<or> n < 1 \<or> 21844 < n"
    using that by (rule exchange_validation)
  show "(exchange K c a out n = Some (Inl (I2cIOError ''Input payload is too large''), c'))
       = (ftdi c \<noteq> None \<and> a \<le> 0x7f \<and> payload_len out \<noteq> 0 \<and> 21844 < n \<and> c' = c)"
  proof
    assume r: "ftdi c \<noteq> None \<and> a \<le> 0x7f \<and> payload_len out \<noteq> 0 \<and> 21844 < n \<and> c' = c"
    then show "exchange K c a out n = Some (Inl (I2cIOError ''Input payload is too large''), c')"
      by (auto simp: exchange_def validate_address_def HIGHEST_I2C_ADDRESS_def threshold_real)
  next
    assume l: "exchange K c a out n = Some (Inl (I2cIOError ''Input payload is too large''), c')"
    have nb: "\<not> bus_error (I2cIOError ''Input payload is too large'')"
      by (simp add: bus_error_def)
    have "exchange_loop K c (push_bit 1 a AND HIGH) out n 3
            \<noteq> Some (Inl (I2cIOError ''Input payload is too large''), c')"
      using exchange_loop_first [of K c "push_bit 1 a AND HIGH" out n
               "Inl (I2cIOError ''Input payload is too large'')" c'] nb
      by blast
    with l show "ftdi c \<noteq> None \<and> a \<le> 0x7f \<and> payload_len out \<noteq> 0 \<and> 21844 < n \<and> c' = c"
      by (auto simp: exchange_def Let_def validate_address_def HIGHEST_I2C_ADDRESS_def
                     threshold_real RETRY_COUNT_def split: if_splits)
  qed
qed

theorem exchange_payload_too_large_witness:
  "exchange K0 (configured acking 128 384) 0x21 (Bytes [4]) 21845
      = Some (Inl (I2cIOError ''Input payload is too large''), configured acking 128 384)
   \<and> ftdi (configured acking 128 384) \<noteq> None \<and> (0x21 :: int) \<le> 0x7f \<and> [4 :: byte] \<noteq> []
   \<and> (21844 :: int) < 21845
   \<and> (\<forall>c'. exchange K0 (configured acking 128 384) 0x21 (Bytes [4]) 21844
            \<noteq> Some (Inl (I2cIOError ''Input payload is too large''), c'))
   \<and> (\<exists>m. exchange K0 (configured acking 128 384) 0x80 (Bytes [4]) 2
            = Some (Inl (I2cIOError m), configured acking 128 384))"
  using exchange_payload_too_large [of K0 "configured acking 128 384" "0x21" "Bytes [4]" 21845
           "configured acking 128 384"]
        exchange_payload_too_large [of K0 "configured acking 128 384" "0x21" "Bytes [4]" 21844]
        exchange_payload_too_large [of K0 "configured acking 128 384" "0x80" "Bytes [4]" 2]
  by (simp add: configured_def I2cController_init_def)

section \<open>Chunked read\<close>

text \<open>
  C1. A read of 15 bytes on a controller with a send FIFO of 128 bytes and a receive
  FIFO of 384 bytes, where the chunk size is 14, on a device that returns what is asked
  for. \<^verbatim>\<open>_do_read\<close> returns 15 bytes from two chunks, of 14 bytes and of 1 byte. The
  command of the first chunk is 13 units with an ack bit and then a unit with a nack
  bit, although one more byte is read after it; the command of the second chunk is one
  more unit with a nack bit and the immediate marker. So two units of the command stream
  are followed by a nack bit, one of them at the chunk boundary.
\<close>

theorem do_read_nack_at_chunk_boundary:
  "chunk_size K0 (configured acking 128 384) = 14
   \<and> do_read K0 (configured acking 128 384) 15
     = Some (Inr (replicate 14 0 @ [0]),
             extend (configured acking 128 384)
               [WriteData (concat (replicate 13 (read_not_last K0)) @ read_last K0),
                ReadData 14 4,
                WriteData (read_last K0 @ immediate K0),
                ReadData 1 4])
   \<and> read_last K0 = read_byte K0 @ nack K0 @ clock_low_data_high K0
   \<and> read_not_last K0 = read_byte K0 @ ack K0 @ clock_low_data_high K0
   \<and> nack K0 \<noteq> ack K0"
proof (intro conjI)
  show "chunk_size K0 (configured acking 128 384) = 14"
    by (simp add: eval_defs)
  show "do_read K0 (configured acking 128 384) 15
     = Some (Inr (replicate 14 0 @ [0]),
             extend (configured acking 128 384)
               [WriteData (concat (replicate 13 (read_not_last K0)) @ read_last K0),
                ReadData 14 4,
                WriteData (read_last K0 @ immediate K0),
                ReadData 1 4])"
    by (simp add: do_read_loop_0 do_read_loop_unfold eval_defs)
  show "read_last K0 = read_byte K0 @ nack K0 @ clock_low_data_high K0"
    by (simp add: read_last_def)
  show "read_not_last K0 = read_byte K0 @ ack K0 @ clock_low_data_high K0"
    by (simp add: read_not_last_def)
  show "nack K0 \<noteq> ack K0"
    by (simp add: nack_def ack_def LOW_def HIGH_def)
qed

end
